theory Spec2Isabelle
  imports Main
begin

section \<open>Documents, collections and errors\<close>

text \<open>
  The backend keeps its state in MongoDB collections. A collection is modelled as the
  list of its documents in natural (insertion) order, a document as a record with the
  keys the route handlers read and write. Times are readings of \<open>datetime.utcnow()\<close>,
  passed in as integers. The \<open>_id\<close> of a media document is a bson ObjectId; the
  \<open>_id\<close> of an upload-queue document is generated by \<open>insert_one\<close> and is
  modelled by a counter kept in the state.
\<close>

type_synonym timestamp = int

datatype MediaType = film | series

record media_doc =
  media_oid :: "nat list"
  media_type :: MediaType

record FilmLink =
  film_id :: string
  fl_file_id :: string
  fl_message_id :: "int option"
  fl_storage_bot :: string
  fl_uploader_id :: int

record attachment =
  media_id :: string
  att_file_id :: string
  att_message_id :: "int option"
  storage_bot :: string
  uploader_id :: int
  linked_at :: timestamp

record episode_doc = attachment +
  season_number :: int
  episode_number :: int

record UploadCreate =
  user_id :: int
  file_id :: string
  bot_name :: string
  message_id :: "int option"

record queue_doc = UploadCreate +
  timestamp :: timestamp
  qid :: nat

record db =
  media :: "media_doc list"
  films :: "attachment list"
  episodes :: "episode_doc list"
  upload_queue :: "queue_doc list"
  next_oid :: nat

text \<open>
  The request-level failures of the routes (\<open>HTTPException\<close>): \<open>InvalidId\<close> is
  400 "Invalid film ID", \<open>NotFound\<close> is 404 "Film not found", \<open>WrongKind\<close> is
  400 "Media is not a film", \<open>InsufficientQueue found needed\<close> is
  400 "Not enough uploads. Found ..., need ...".
\<close>

datatype error = InvalidId | NotFound | WrongKind | InsufficientQueue nat int

fun status_code :: "error \<Rightarrow> nat" where
  "status_code InvalidId = 400"
| "status_code NotFound = 404"
| "status_code WrongKind = 400"
| "status_code (InsufficientQueue found needed) = 400"

subsection \<open>bson ObjectId\<close>

text \<open>
  \<open>ObjectId(s)\<close> on a string accepts 24 hexadecimal digits and raises \<open>InvalidId\<close>
  on anything else; upper and lower case digits denote the same id. The id is kept as
  the list of its 24 digit values.
\<close>

definition hexval :: "char \<Rightarrow> nat option" where
  "hexval c =
     (let n = (of_char c :: nat) in
      if 48 \<le> n \<and> n \<le> 57 then Some (n - 48)
      else if 97 \<le> n \<and> n \<le> 102 then Some (n - 87)
      else if 65 \<le> n \<and> n \<le> 70 then Some (n - 55)
      else None)"

definition ObjectId :: "string \<Rightarrow> nat list option" where
  "ObjectId s = (if length s = 24 then those (map hexval s) else None)"

subsection \<open>Collection primitives\<close>

text \<open>
  \<open>find_one\<close> returns the first document that matches, \<open>replace_one\<close> (always
  called with \<open>upsert=True\<close>) replaces the first match or inserts, \<open>delete_one\<close>
  removes the first match, \<open>delete_many\<close> all of them, \<open>count_documents\<close> counts.
\<close>

definition find_one :: "('a \<Rightarrow> bool) \<Rightarrow> 'a list \<Rightarrow> 'a option" where
  "find_one p xs = find p xs"

fun replace_one :: "('a \<Rightarrow> bool) \<Rightarrow> 'a \<Rightarrow> 'a list \<Rightarrow> 'a list" where
  "replace_one p d [] = [d]"
| "replace_one p d (x # xs) = (if p x then d # xs else x # replace_one p d xs)"

fun delete_one :: "('a \<Rightarrow> bool) \<Rightarrow> 'a list \<Rightarrow> 'a list" where
  "delete_one p [] = []"
| "delete_one p (x # xs) = (if p x then xs else x # delete_one p xs)"

definition delete_many :: "('a \<Rightarrow> bool) \<Rightarrow> 'a list \<Rightarrow> 'a list" where
  "delete_many p xs = filter (\<lambda>x. \<not> p x) xs"

definition count_documents :: "('a \<Rightarrow> bool) \<Rightarrow> 'a list \<Rightarrow> nat" where
  "count_documents p xs = length (filter p xs)"

text \<open>
  \<open>cursor.limit(n)\<close>: a limit of 0 is no limit, a negative limit is its absolute value.
\<close>

definition limit :: "int \<Rightarrow> 'a list \<Rightarrow> 'a list" where
  "limit n xs = (if n = 0 then xs else take (nat \<bar>n\<bar>) xs)"

section \<open>Film linking\<close>

text \<open>
  \<open>link_film\<close> (POST /film/link) of routes/media.py. The result is the error raised or
  the \<open>film_id\<close> of the success response, together with the state afterwards. The
  request is taken to carry a valid API key, and reads of the store are taken not to
  fail, so that the \<open>try\<close> around the lookup catches the \<open>InvalidId\<close> of
  \<open>ObjectId\<close> only.
\<close>

definition film_doc :: "timestamp \<Rightarrow> FilmLink \<Rightarrow> attachment" where
  "film_doc now data =
     \<lparr>media_id = film_id data, att_file_id = fl_file_id data,
      att_message_id = fl_message_id data, storage_bot = fl_storage_bot data,
      uploader_id = fl_uploader_id data, linked_at = now\<rparr>"

definition link_film :: "timestamp \<Rightarrow> FilmLink \<Rightarrow> db \<Rightarrow> (error + string) \<times> db" where
  "link_film now data d =
     (case ObjectId (film_id data) of
        None \<Rightarrow> (Inl InvalidId, d)
      | Some oid \<Rightarrow>
          (case find_one (\<lambda>m. media_oid m = oid) (media d) of
             None \<Rightarrow> (Inl NotFound, d)
           | Some m \<Rightarrow>
               if media_type m \<noteq> film then (Inl WrongKind, d)
               else (Inr (film_id data),
                     d\<lparr>films := replace_one (\<lambda>f. media_id f = film_id data)
                                   (film_doc now data) (films d)\<rparr>)))"

text \<open>\<open>get_film\<close> (GET /film/{film_id}): the stored attachment, or 404.\<close>

definition get_film :: "string \<Rightarrow> db \<Rightarrow> error + attachment" where
  "get_film fid d =
     (case find_one (\<lambda>f. media_id f = fid) (films d) of
        None \<Rightarrow> Inl NotFound
      | Some f \<Rightarrow> Inr f)"

section \<open>The upload queue\<close>

text \<open>
  The queue routes of routes/uploads.py. \<open>add_to_queue\<close> receives the \<open>user_id\<close>
  of the path and the request body; the document it inserts is the body plus the
  timestamp, and \<open>insert_one\<close> gives it a fresh \<open>_id\<close>, which is returned.
\<close>

definition queue_entry :: "UploadCreate \<Rightarrow> timestamp \<Rightarrow> nat \<Rightarrow> queue_doc" where
  "queue_entry data now i =
     \<lparr>user_id = user_id data, file_id = file_id data, bot_name = bot_name data,
      message_id = message_id data, timestamp = now, qid = i\<rparr>"

definition add_to_queue :: "int \<Rightarrow> UploadCreate \<Rightarrow> timestamp \<Rightarrow> db \<Rightarrow> nat \<times> db" where
  "add_to_queue path_user_id data now d =
     (next_oid d,
      d\<lparr>upload_queue := upload_queue d @ [queue_entry data now (next_oid d)],
        next_oid := Suc (next_oid d)\<rparr>)"

text \<open>
  \<open>find({"user_id": u}).sort("timestamp", 1)\<close>: the documents of the user, ascending by
  timestamp. \<open>sort_key\<close> is stable (documents with equal timestamps keep their natural
  order); MongoDB leaves the order of equal keys open, so nothing below relies on it
  where timestamps can coincide.
\<close>

definition find_queue :: "int \<Rightarrow> db \<Rightarrow> queue_doc list" where
  "find_queue u d = sort_key timestamp (filter (\<lambda>q. user_id q = u) (upload_queue d))"

definition get_queue :: "int \<Rightarrow> db \<Rightarrow> queue_doc list" where
  "get_queue u d = find_queue u d"

definition get_queue_count :: "int \<Rightarrow> db \<Rightarrow> nat" where
  "get_queue_count u d = count_documents (\<lambda>q. user_id q = u) (upload_queue d)"

definition clear_queue :: "int \<Rightarrow> db \<Rightarrow> nat \<times> db" where
  "clear_queue u d =
     (count_documents (\<lambda>q. user_id q = u) (upload_queue d),
      d\<lparr>upload_queue := delete_many (\<lambda>q. user_id q = u) (upload_queue d)\<rparr>)"

definition remove_from_queue :: "int \<Rightarrow> string \<Rightarrow> db \<Rightarrow> bool \<times> db" where
  "remove_from_queue u f d =
     (find_one (\<lambda>q. user_id q = u \<and> file_id q = f) (upload_queue d) \<noteq> None,
      d\<lparr>upload_queue := delete_one (\<lambda>q. user_id q = u \<and> file_id q = f) (upload_queue d)\<rparr>)"

section \<open>Bulk season linking\<close>

text \<open>
  \<open>link_season_bulk\<close> (POST /season/link-bulk) of routes/media.py. Inside the loop the
  body of the \<open>try\<close> can raise at \<open>replace_one\<close> or at \<open>delete_one\<close>; which of the
  store calls of item \<open>i\<close> (the index of \<open>enumerate\<close>) raises, and with what message,
  is given by a fault oracle, and a call that raises leaves the store as it was. The
  clock is read once per item.
\<close>

datatype fault = NoFault | UpsertRaises string | DeleteRaises string

record detail =
  episode :: int
  success :: bool
  error_msg :: "string option"

record bulk_response =
  r_media_id :: string
  r_season :: int
  total_episodes :: int
  linked_successfully :: nat
  details :: "detail list"

definition episode_key :: "string \<Rightarrow> int \<Rightarrow> int \<Rightarrow> episode_doc \<Rightarrow> bool" where
  "episode_key m s e x = (media_id x = m \<and> season_number x = s \<and> episode_number x = e)"

definition bulk_doc :: "string \<Rightarrow> int \<Rightarrow> int \<Rightarrow> int \<Rightarrow> timestamp \<Rightarrow> queue_doc \<Rightarrow> episode_doc" where
  "bulk_doc m s episode_num uploader now upload =
     \<lparr>media_id = m, att_file_id = file_id upload, att_message_id = message_id upload,
      storage_bot = bot_name upload, uploader_id = uploader, linked_at = now,
      season_number = s, episode_number = episode_num\<rparr>"

fun link_loop ::
  "(nat \<Rightarrow> fault) \<Rightarrow> (nat \<Rightarrow> timestamp) \<Rightarrow> string \<Rightarrow> int \<Rightarrow> int \<Rightarrow>
   nat \<Rightarrow> queue_doc list \<Rightarrow> detail list \<Rightarrow> db \<Rightarrow> detail list \<times> db" where
  "link_loop F clock m s uploader i [] linked d = (linked, d)"
| "link_loop F clock m s uploader i (upload # rest) linked d =
     (let episode_num = int i + 1;
          doc = bulk_doc m s episode_num uploader (clock i) upload
      in case F i of
           UpsertRaises e \<Rightarrow>
             link_loop F clock m s uploader (Suc i) rest
               (linked @ [\<lparr>episode = episode_num, success = False, error_msg = Some e\<rparr>]) d
         | DeleteRaises e \<Rightarrow>
             link_loop F clock m s uploader (Suc i) rest
               (linked @ [\<lparr>episode = episode_num, success = False, error_msg = Some e\<rparr>])
               (d\<lparr>episodes := replace_one (episode_key m s episode_num) doc (episodes d)\<rparr>)
         | NoFault \<Rightarrow>
             link_loop F clock m s uploader (Suc i) rest
               (linked @ [\<lparr>episode = episode_num, success = True, error_msg = None\<rparr>])
               (d\<lparr>episodes := replace_one (episode_key m s episode_num) doc (episodes d),
                  upload_queue := delete_one (\<lambda>q. qid q = qid upload) (upload_queue d)\<rparr>))"

definition link_season_bulk ::
  "(nat \<Rightarrow> fault) \<Rightarrow> (nat \<Rightarrow> timestamp) \<Rightarrow> string \<Rightarrow> int \<Rightarrow> int \<Rightarrow> int \<Rightarrow> db \<Rightarrow>
   (error + bulk_response) \<times> db" where
  "link_season_bulk F clock m season_num episode_count uploader d =
     (let uploads = limit episode_count (find_queue uploader d)
      in if int (length uploads) < episode_count
         then (Inl (InsufficientQueue (length uploads) episode_count), d)
         else
           (let (linked, d') = link_loop F clock m season_num uploader 0 uploads [] d
            in (Inr \<lparr>r_media_id = m, r_season = season_num, total_episodes = episode_count,
                     linked_successfully = length (filter success linked),
                     details = linked\<rparr>, d')))"

text \<open>\<open>get_episode\<close> (GET /{media_id}/season/{season}/episode/{episode}).\<close>

definition get_episode :: "string \<Rightarrow> int \<Rightarrow> int \<Rightarrow> db \<Rightarrow> error + episode_doc" where
  "get_episode m s e d =
     (case find_one (episode_key m s e) (episodes d) of
        None \<Rightarrow> Inl NotFound
      | Some ep \<Rightarrow> Inr ep)"

section \<open>Delivery\<close>

text \<open>
  \<open>send_video_from_channel\<close> of the streaming bot. The Telegram client is a parameter:
  \<open>api call\<close> is \<open>None\<close> when the call returns and \<open>Some e\<close> when it raises \<open>e\<close>.
  The function returns the calls it made and what it raised, if anything.
  \<open>video_data\<close> is the attachment as the backend returned it; \<open>.get\<close> gives
  \<open>None\<close> for a missing key.
\<close>

record video_data =
  vd_message_id :: "int option"
  vd_file_id :: "string option"

datatype bot_call =
    copy_message int int int string
  | send_video int "string option" string

text \<open>Python truth value of an optional integer: \<open>None\<close> and \<open>0\<close> are false.\<close>

fun truthy :: "int option \<Rightarrow> bool" where
  "truthy None = False"
| "truthy (Some n) = (n \<noteq> 0)"

definition send_video_from_channel ::
  "(bot_call \<Rightarrow> 'e option) \<Rightarrow> int \<Rightarrow> int \<Rightarrow> video_data \<Rightarrow> string \<Rightarrow> bot_call list \<times> 'e option" where
  "send_video_from_channel api STORAGE_CHANNEL_ID chat_id vd caption =
     (let msg = vd_message_id vd; fid = vd_file_id vd
      in if truthy msg
         then (let c = copy_message chat_id STORAGE_CHANNEL_ID (the msg) caption
               in ([c], api c))
         else (let c = send_video chat_id fid caption
               in ([c], api c)))"


section \<open>Outcomes and sequences of requests\<close>

text \<open>
  What the loop of \<open>link_season_bulk\<close> appends to \<open>linked\<close> for the item with index
  \<open>i\<close>: the episode number \<open>i + 1\<close>, success when neither store call raised, and
  otherwise the message of the exception.
\<close>

fun fault_msg :: "fault \<Rightarrow> string option" where
  "fault_msg NoFault = None"
| "fault_msg (UpsertRaises e) = Some e"
| "fault_msg (DeleteRaises e) = Some e"

definition outcome :: "(nat \<Rightarrow> fault) \<Rightarrow> nat \<Rightarrow> detail" where
  "outcome F i = \<lparr>episode = int i + 1, success = (F i = NoFault), error_msg = fault_msg (F i)\<rparr>"

fun upsert_raises :: "fault \<Rightarrow> bool" where
  "upsert_raises (UpsertRaises e) = True"
| "upsert_raises f = False"

text \<open>
  A sequence of enqueue requests, each with the reading of the clock at its arrival, as
  the storage bot sends them (the path carries the \<open>user_id\<close> of the body), and the
  documents these requests insert, in arrival order, when the first fresh id is \<open>i\<close>.
\<close>

fun enqueue_all :: "(UploadCreate \<times> timestamp) list \<Rightarrow> db \<Rightarrow> db" where
  "enqueue_all [] d = d"
| "enqueue_all ((data, now) # rs) d =
     enqueue_all rs (snd (add_to_queue (user_id data) data now d))"

fun enqueued :: "nat \<Rightarrow> (UploadCreate \<times> timestamp) list \<Rightarrow> queue_doc list" where
  "enqueued i [] = []"
| "enqueued i ((data, now) # rs) = queue_entry data now i # enqueued (Suc i) rs"

text \<open>
  The queue operations addressed to one user: the routes under \<open>/{user_id}/queue\<close> and
  the bulk link with that \<open>uploader_id\<close>. \<open>serve p r d\<close> is the state after request
  \<open>r\<close> addressed to user \<open>p\<close>.
\<close>

datatype queue_request =
    AddToQueue UploadCreate timestamp
  | GetQueue
  | GetQueueCount
  | ClearQueue
  | RemoveFromQueue string
  | LinkSeasonBulk "nat \<Rightarrow> fault" "nat \<Rightarrow> timestamp" string int int

fun serve :: "int \<Rightarrow> queue_request \<Rightarrow> db \<Rightarrow> db" where
  "serve p (AddToQueue data now) d = snd (add_to_queue p data now d)"
| "serve p GetQueue d = d"
| "serve p GetQueueCount d = d"
| "serve p ClearQueue d = snd (clear_queue p d)"
| "serve p (RemoveFromQueue f) d = snd (remove_from_queue p f d)"
| "serve p (LinkSeasonBulk F clock m s n) d = snd (link_season_bulk F clock m s n p d)"

fun serve_all :: "int \<Rightarrow> queue_request list \<Rightarrow> db \<Rightarrow> db" where
  "serve_all p [] d = d"
| "serve_all p (r # rs) d = serve_all p rs (serve p r d)"

text \<open>
  MongoDB keeps the \<open>_id\<close>s of a collection unique and \<open>insert_one\<close> draws a fresh
  one: in the model the ids of the queued documents are distinct and below the counter.
\<close>

definition unique_ids :: "db \<Rightarrow> bool" where
  "unique_ids d =
     (distinct (map qid (upload_queue d)) \<and> (\<forall>q\<in>set (upload_queue d). qid q < next_oid d))"

section \<open>Facts about the collection primitives\<close>

lemma find_one_replace_one_same: "p d \<Longrightarrow> find_one p (replace_one p d xs) = Some d"
  by (induction xs) (auto simp: find_one_def)

lemma find_one_replace_one_other:
  "\<not> p d \<Longrightarrow> (\<And>x. p x \<Longrightarrow> \<not> q x) \<Longrightarrow> find_one p (replace_one q d xs) = find_one p xs"
  by (induction xs) (auto simp: find_one_def)

lemma set_replace_one_subset: "set (replace_one p d xs) \<subseteq> insert d (set xs)"
  by (induction xs) auto

lemma distinct_replace_one:
  "distinct (map k xs) \<Longrightarrow> distinct (map k (replace_one (\<lambda>x. k x = k d) d xs))"
proof (induction xs)
  case Nil
  then show ?case by simp
next
  case (Cons x xs)
  show ?case
  proof (cases "k x = k d")
    case True
    with Cons.prems show ?thesis by simp
  next
    case False
    have "k x \<notin> k ` set (replace_one (\<lambda>x. k x = k d) d xs)"
    proof
      assume "k x \<in> k ` set (replace_one (\<lambda>x. k x = k d) d xs)"
      then obtain y where y: "y \<in> set (replace_one (\<lambda>x. k x = k d) d xs)" "k x = k y"
        by auto
      from y(1) set_replace_one_subset have "y = d \<or> y \<in> set xs" by fastforce
      with y(2) False Cons.prems show False by auto
    qed
    with False Cons show ?thesis by simp
  qed
qed

lemma filter_replace_one:
  "distinct (map k xs) \<Longrightarrow> filter (\<lambda>x. k x = k d) (replace_one (\<lambda>x. k x = k d) d xs) = [d]"
proof (induction xs)
  case Nil
  then show ?case by simp
next
  case (Cons x xs)
  show ?case
  proof (cases "k x = k d")
    case True
    with Cons.prems have "\<forall>y\<in>set xs. k y \<noteq> k d" by (auto simp: image_iff)
    then have "filter (\<lambda>x. k x = k d) xs = []" by (simp add: filter_empty_conv)
    with True show ?thesis by simp
  next
    case False
    with Cons show ?thesis by simp
  qed
qed

section \<open>Film linking: rejection and upsert\<close>

text \<open>
  C8, as the code has it. \<open>link_film\<close> parses the id first and answers 400
  "Invalid film ID" (\<open>InvalidId\<close>) for a string that is no ObjectId. For a well-formed
  id with no media document it fails with \<open>NotFound\<close>, and for an id whose media
  document has type series it fails with \<open>WrongKind\<close>. In all three cases the state,
  and so the films collection, is returned unchanged.
\<close>

theorem link_film_rejects:
  "(ObjectId (film_id data) = None \<longrightarrow> link_film now data d = (Inl InvalidId, d)) \<and>
   (\<forall>oid. ObjectId (film_id data) = Some oid \<longrightarrow>
      find_one (\<lambda>m. media_oid m = oid) (media d) = None \<longrightarrow>
      link_film now data d = (Inl NotFound, d)) \<and>
   (\<forall>oid m. ObjectId (film_id data) = Some oid \<longrightarrow>
      find_one (\<lambda>m. media_oid m = oid) (media d) = Some m \<longrightarrow> media_type m = series \<longrightarrow>
      link_film now data d = (Inl WrongKind, d))"
  by (simp add: link_film_def)

text \<open>
  The three rejections on concrete requests: the string \<open>abc\<close>, a well-formed id on an
  empty catalog, and the same id when the catalog holds it as a series.
\<close>

theorem link_film_rejects_witness:
  "link_film 5 \<lparr>film_id = ''abc'', fl_file_id = ''f'', fl_message_id = None,
                  fl_storage_bot = ''b'', fl_uploader_id = 1\<rparr>
     \<lparr>media = [], films = [], episodes = [], upload_queue = [], next_oid = 0\<rparr>
   = (Inl InvalidId, \<lparr>media = [], films = [], episodes = [], upload_queue = [], next_oid = 0\<rparr>) \<and>
   link_film 5 \<lparr>film_id = ''5f2b9c0a7D3E4f6a8b9c0d2e'', fl_file_id = ''f'', fl_message_id = None,
                  fl_storage_bot = ''b'', fl_uploader_id = 1\<rparr>
     \<lparr>media = [], films = [], episodes = [], upload_queue = [], next_oid = 0\<rparr>
   = (Inl NotFound, \<lparr>media = [], films = [], episodes = [], upload_queue = [], next_oid = 0\<rparr>) \<and>
   link_film 5 \<lparr>film_id = ''5f2b9c0a7D3E4f6a8b9c0d2e'', fl_file_id = ''f'', fl_message_id = None,
                  fl_storage_bot = ''b'', fl_uploader_id = 1\<rparr>
     \<lparr>media = [\<lparr>media_oid = [5,15,2,11,9,12,0,10,7,13,3,14,4,15,6,10,8,11,9,12,0,13,2,14],
                 media_type = series\<rparr>],
      films = [], episodes = [], upload_queue = [], next_oid = 0\<rparr>
   = (Inl WrongKind,
      \<lparr>media = [\<lparr>media_oid = [5,15,2,11,9,12,0,10,7,13,3,14,4,15,6,10,8,11,9,12,0,13,2,14],
                 media_type = series\<rparr>],
      films = [], episodes = [], upload_queue = [], next_oid = 0\<rparr>)"
proof -
  let ?bad = "\<lparr>film_id = ''abc'', fl_file_id = ''f'', fl_message_id = None,
                  fl_storage_bot = ''b'', fl_uploader_id = 1\<rparr>"
  let ?good = "\<lparr>film_id = ''5f2b9c0a7D3E4f6a8b9c0d2e'', fl_file_id = ''f'', fl_message_id = None,
                  fl_storage_bot = ''b'', fl_uploader_id = 1\<rparr>"
  let ?oid = "[5,15,2,11,9,12,0,10,7,13,3,14,4,15,6,10,8,11,9,12,0,13,2,14] :: nat list"
  let ?d0 = "\<lparr>media = [], films = [], episodes = [], upload_queue = [], next_oid = 0\<rparr>"
  let ?d1 = "\<lparr>media = [\<lparr>media_oid = ?oid, media_type = series\<rparr>],
      films = [], episodes = [], upload_queue = [], next_oid = 0\<rparr>"
  have b: "ObjectId (film_id ?bad) = None" by (simp add: ObjectId_def)
  have g: "ObjectId (film_id ?good) = Some ?oid" by (simp add: ObjectId_def hexval_def)
  have n: "find_one (\<lambda>m. media_oid m = ?oid) (media ?d0) = None" by (simp add: find_one_def)
  have s: "find_one (\<lambda>m. media_oid m = ?oid) (media ?d1) = Some \<lparr>media_oid = ?oid, media_type = series\<rparr>"
    by (simp add: find_one_def)
  have 1: "link_film 5 ?bad ?d0 = (Inl InvalidId, ?d0)"
    using link_film_rejects [of ?bad 5 ?d0] b by blast
  have 2: "link_film 5 ?good ?d0 = (Inl NotFound, ?d0)"
    using link_film_rejects [of ?good 5 ?d0] g n by blast
  have 3: "link_film 5 ?good ?d1 = (Inl WrongKind, ?d1)"
    using link_film_rejects [of ?good 5 ?d1] g s by (metis media_doc.select_convs(2))
  from 1 2 3 show ?thesis by blast
qed

text \<open>
  On an empty catalog no title has the id \<open>abc\<close>, yet the failure is not \<open>NotFound\<close>.
\<close>

theorem link_film_malformed_id_counterexample:
  "fst (link_film 5 \<lparr>film_id = ''abc'', fl_file_id = ''f'', fl_message_id = None,
                  fl_storage_bot = ''b'', fl_uploader_id = 1\<rparr>
     \<lparr>media = [], films = [], episodes = [], upload_queue = [], next_oid = 0\<rparr>) \<noteq> Inl NotFound"
  by (simp add: link_film_def ObjectId_def)

text \<open>
  C7. The films collection carries a unique index on \<open>media_id\<close>, so its documents
  have distinct \<open>media_id\<close>s. From such a state, after two successive successful
  \<open>link_film\<close> calls for the same \<open>film_id\<close> with records \<open>r1\<close> then \<open>r2\<close>,
  exactly one document of the films collection has that \<open>media_id\<close>; it consists of
  the fields of \<open>r2\<close> and the time of the second call, \<open>get_film\<close> returns it, and
  the \<open>media_id\<close>s are still distinct.
\<close>

theorem link_film_upsert:
  assumes "distinct (map media_id (films d))"
    and "link_film t1 r1 d = (Inr x1, d1)"
    and "link_film t2 r2 d1 = (Inr x2, d2)"
    and "film_id r1 = film_id r2"
  shows "filter (\<lambda>f. media_id f = film_id r2) (films d2) = [film_doc t2 r2] \<and>
         get_film (film_id r2) d2 = Inr (film_doc t2 r2) \<and>
         distinct (map media_id (films d2))"
proof -
  have k: "media_id (film_doc t r) = film_id r" for t r by (simp add: film_doc_def)
  from assms(2) have d1: "films d1 = replace_one (\<lambda>f. media_id f = media_id (film_doc t1 r1)) (film_doc t1 r1) (films d)"
    by (auto simp: link_film_def k split: option.splits if_splits)
  from assms(3) have d2: "films d2 = replace_one (\<lambda>f. media_id f = media_id (film_doc t2 r2)) (film_doc t2 r2) (films d1)"
    by (auto simp: link_film_def k split: option.splits if_splits)
  have i1: "distinct (map media_id (films d1))" unfolding d1 using assms(1) by (rule distinct_replace_one)
  have i2: "distinct (map media_id (films d2))" unfolding d2 using i1 by (rule distinct_replace_one)
  have f: "filter (\<lambda>f. media_id f = media_id (film_doc t2 r2)) (films d2) = [film_doc t2 r2]"
    unfolding d2 using i1 by (rule filter_replace_one)
  have g: "find_one (\<lambda>f. media_id f = media_id (film_doc t2 r2)) (films d2) = Some (film_doc t2 r2)"
    unfolding d2 by (rule find_one_replace_one_same) simp
  show ?thesis using f g i2 by (simp add: k get_film_def)
qed


text \<open>Two links of one film with different records leave the second record only.\<close>

theorem link_film_upsert_witness:
  "filter (\<lambda>f. media_id f = ''5f2b9c0a7D3E4f6a8b9c0d2e'')
     (films (snd (link_film 7 \<lparr>film_id = ''5f2b9c0a7D3E4f6a8b9c0d2e'', fl_file_id = ''g'',
                    fl_message_id = Some 42, fl_storage_bot = ''b'', fl_uploader_id = 2\<rparr>
        (snd (link_film 5 \<lparr>film_id = ''5f2b9c0a7D3E4f6a8b9c0d2e'', fl_file_id = ''f'',
                    fl_message_id = None, fl_storage_bot = ''b'', fl_uploader_id = 1\<rparr>
           \<lparr>media = [\<lparr>media_oid = [5,15,2,11,9,12,0,10,7,13,3,14,4,15,6,10,8,11,9,12,0,13,2,14],
                 media_type = film\<rparr>],
            films = [], episodes = [], upload_queue = [], next_oid = 0\<rparr>)))))
   = [\<lparr>media_id = ''5f2b9c0a7D3E4f6a8b9c0d2e'', att_file_id = ''g'', att_message_id = Some 42,
       storage_bot = ''b'', uploader_id = 2, linked_at = 7\<rparr>]"
proof -
  let ?r1 = "\<lparr>film_id = ''5f2b9c0a7D3E4f6a8b9c0d2e'', fl_file_id = ''f'',
                    fl_message_id = None, fl_storage_bot = ''b'', fl_uploader_id = 1\<rparr>"
  let ?r2 = "\<lparr>film_id = ''5f2b9c0a7D3E4f6a8b9c0d2e'', fl_file_id = ''g'',
                    fl_message_id = Some 42, fl_storage_bot = ''b'', fl_uploader_id = 2\<rparr>"
  let ?d = "\<lparr>media = [\<lparr>media_oid = [5,15,2,11,9,12,0,10,7,13,3,14,4,15,6,10,8,11,9,12,0,13,2,14],
                 media_type = film\<rparr>],
            films = [], episodes = [], upload_queue = [], next_oid = 0\<rparr>"
  let ?d1 = "\<lparr>media = [\<lparr>media_oid = [5,15,2,11,9,12,0,10,7,13,3,14,4,15,6,10,8,11,9,12,0,13,2,14],
                 media_type = film\<rparr>],
            films = [film_doc 5 ?r1], episodes = [], upload_queue = [], next_oid = 0\<rparr>"
  let ?d2 = "\<lparr>media = [\<lparr>media_oid = [5,15,2,11,9,12,0,10,7,13,3,14,4,15,6,10,8,11,9,12,0,13,2,14],
                 media_type = film\<rparr>],
            films = [film_doc 7 ?r2], episodes = [], upload_queue = [], next_oid = 0\<rparr>"
  have i: "distinct (map media_id (films ?d))" by simp
  have a: "link_film 5 ?r1 ?d = (Inr (film_id ?r1), ?d1)"
    by (simp add: link_film_def ObjectId_def hexval_def find_one_def)
  have b: "link_film 7 ?r2 ?d1 = (Inr (film_id ?r2), ?d2)"
    by (simp add: link_film_def ObjectId_def hexval_def find_one_def film_doc_def)
  have e: "film_id ?r1 = film_id ?r2" by simp
  have c: "snd (link_film 7 ?r2 (snd (link_film 5 ?r1 ?d))) = ?d2"
    by (simp only: a b snd_conv)
  from link_film_upsert [OF i a b e] show ?thesis by (simp add: c film_doc_def)
qed

section \<open>Delivery: the choice between the two replays\<close>

text \<open>
  C6, as the code has it. \<open>send_video_from_channel\<close> makes exactly one call to the
  Telegram client. When \<open>message_id\<close> is an integer other than 0 the call is
  \<open>copy_message\<close> with that message id; when it is missing or 0 the call is
  \<open>send_video\<close> with the \<open>file_id\<close>. Whatever the call raises is raised to the
  caller as it is, and no second call follows.
\<close>

theorem resolve_two_tier:
  "(\<forall>n. vd_message_id vd = Some n \<longrightarrow> n \<noteq> 0 \<longrightarrow>
      send_video_from_channel api ch chat vd cap
        = ([copy_message chat ch n cap], api (copy_message chat ch n cap))) \<and>
   (vd_message_id vd = None \<or> vd_message_id vd = Some 0 \<longrightarrow>
      send_video_from_channel api ch chat vd cap
        = ([send_video chat (vd_file_id vd) cap], api (send_video chat (vd_file_id vd) cap)))"
  by (auto simp: send_video_from_channel_def Let_def)

text \<open>Both tiers with a client whose calls all raise: one call each, the error passed on.\<close>

theorem resolve_two_tier_witness:
  "send_video_from_channel (\<lambda>c. Some ''boom'') (-100) 9
       \<lparr>vd_message_id = Some 31, vd_file_id = Some ''f''\<rparr> ''cap''
     = ([copy_message 9 (-100) 31 ''cap''], Some ''boom'') \<and>
   send_video_from_channel (\<lambda>c. Some ''boom'') (-100) 9
       \<lparr>vd_message_id = None, vd_file_id = Some ''f''\<rparr> ''cap''
     = ([send_video 9 (Some ''f'') ''cap''], Some ''boom'')"
proof -
  have 1: "vd_message_id \<lparr>vd_message_id = Some 31, vd_file_id = Some ''f''\<rparr> = Some 31 \<and> (31::int) \<noteq> 0"
    by simp
  have 2: "vd_message_id \<lparr>vd_message_id = None, vd_file_id = Some ''f''\<rparr> = None" by simp
  show ?thesis
    using resolve_two_tier [of "\<lparr>vd_message_id = Some 31, vd_file_id = Some ''f''\<rparr>"
            "\<lambda>c. Some ''boom''" "-100" 9 "''cap''"]
          resolve_two_tier [of "\<lparr>vd_message_id = None, vd_file_id = Some ''f''\<rparr>"
            "\<lambda>c. Some ''boom''" "-100" 9 "''cap''"] 1 2
    by simp
qed

text \<open>
  An attachment whose channel message reference is present with the value 0 is replayed
  by its raw file handle.
\<close>

theorem resolve_present_zero_counterexample:
  "fst (send_video_from_channel (\<lambda>c. None :: string option) (-100) 9
          \<lparr>vd_message_id = Some 0, vd_file_id = Some ''f''\<rparr> ''cap'')
   = [send_video 9 (Some ''f'') ''cap'']"
  by (simp add: send_video_from_channel_def)

text \<open>
  C9. An attachment whose \<open>message_id\<close> is the integer 0 is sent by \<open>send_video\<close>
  with its \<open>file_id\<close>, exactly as the same attachment with no \<open>message_id\<close>.
\<close>

theorem resolve_zero_is_fallback:
  "vd_message_id vd = Some 0 \<Longrightarrow>
     send_video_from_channel api ch chat vd cap
       = ([send_video chat (vd_file_id vd) cap], api (send_video chat (vd_file_id vd) cap)) \<and>
     send_video_from_channel api ch chat vd cap
       = send_video_from_channel api ch chat (vd\<lparr>vd_message_id := None\<rparr>) cap"
  by (simp add: send_video_from_channel_def Let_def)

text \<open>The message id 0 and a missing message id give the same single call.\<close>

theorem resolve_zero_is_fallback_witness:
  "send_video_from_channel (\<lambda>c. None :: string option) (-100) 9
       \<lparr>vd_message_id = Some 0, vd_file_id = Some ''f''\<rparr> ''cap''
     = ([send_video 9 (Some ''f'') ''cap''], None) \<and>
   send_video_from_channel (\<lambda>c. None :: string option) (-100) 9
       \<lparr>vd_message_id = Some 0, vd_file_id = Some ''f''\<rparr> ''cap''
     = send_video_from_channel (\<lambda>c. None :: string option) (-100) 9
       \<lparr>vd_message_id = None, vd_file_id = Some ''f''\<rparr> ''cap''"
  using resolve_zero_is_fallback [of "\<lparr>vd_message_id = Some 0, vd_file_id = Some ''f''\<rparr>"
          "\<lambda>c. None :: string option" "-100" 9 "''cap''"]
  by (simp add: send_video_from_channel_def)

section \<open>Bulk season linking: the guard\<close>

lemma length_find_queue: "length (find_queue u d) = get_queue_count u d"
  by (simp add: find_queue_def get_queue_count_def count_documents_def)

text \<open>
  C2. When the uploader has fewer than \<open>episode_count\<close> documents in the upload
  queue, \<open>link_season_bulk\<close> fails with \<open>InsufficientQueue\<close>, where found is the
  number of the uploader's queued documents and needed is \<open>episode_count\<close>, and the
  whole state (queue and episodes included) is returned unchanged.
\<close>

theorem bulk_guard:
  assumes "int (get_queue_count u d) < n"
  shows "link_season_bulk F clock m s n u d
         = (Inl (InsufficientQueue (get_queue_count u d) n), d)"
proof -
  from assms have n: "n \<noteq> 0" "\<bar>n\<bar> = n" by auto
  from assms have "get_queue_count u d < nat n" by simp
  then have "limit n (find_queue u d) = find_queue u d"
    using n by (simp add: limit_def length_find_queue)
  with assms show ?thesis
    by (simp add: link_season_bulk_def Let_def length_find_queue)
qed

text \<open>Two queued uploads of user 7, three requested.\<close>

theorem bulk_guard_witness:
  "link_season_bulk (\<lambda>i. NoFault) (\<lambda>i. 9) ''5f2b9c0a7D3E4f6a8b9c0d2e'' 1 3 7
     \<lparr>media = [], films = [], episodes = [],
      upload_queue = [\<lparr>user_id = 7, file_id = ''a'', bot_name = ''b'', message_id = None,
                       timestamp = 1, qid = 0\<rparr>,
                      \<lparr>user_id = 8, file_id = ''x'', bot_name = ''b'', message_id = None,
                       timestamp = 2, qid = 1\<rparr>,
                      \<lparr>user_id = 7, file_id = ''c'', bot_name = ''b'', message_id = None,
                       timestamp = 3, qid = 2\<rparr>],
      next_oid = 3\<rparr>
   = (Inl (InsufficientQueue 2 3),
      \<lparr>media = [], films = [], episodes = [],
      upload_queue = [\<lparr>user_id = 7, file_id = ''a'', bot_name = ''b'', message_id = None,
                       timestamp = 1, qid = 0\<rparr>,
                      \<lparr>user_id = 8, file_id = ''x'', bot_name = ''b'', message_id = None,
                       timestamp = 2, qid = 1\<rparr>,
                      \<lparr>user_id = 7, file_id = ''c'', bot_name = ''b'', message_id = None,
                       timestamp = 3, qid = 2\<rparr>],
      next_oid = 3\<rparr>)"
proof -
  let ?d = "\<lparr>media = [], films = [], episodes = [],
      upload_queue = [\<lparr>user_id = 7, file_id = ''a'', bot_name = ''b'', message_id = None,
                       timestamp = 1, qid = 0\<rparr>,
                      \<lparr>user_id = 8, file_id = ''x'', bot_name = ''b'', message_id = None,
                       timestamp = 2, qid = 1\<rparr>,
                      \<lparr>user_id = 7, file_id = ''c'', bot_name = ''b'', message_id = None,
                       timestamp = 3, qid = 2\<rparr>],
      next_oid = 3\<rparr>"
  have c: "get_queue_count 7 ?d = 2" by (simp add: get_queue_count_def count_documents_def)
  then have "int (get_queue_count 7 ?d) < 3" by simp
  from bulk_guard [OF this] c show ?thesis by simp
qed

text \<open>
  C1. \<open>link_season_bulk\<close> never reads the media collection. On an empty catalog, with
  one upload queued for user 7, a bulk link of one episode to a \<open>media_id\<close> that names
  no title succeeds: it writes an episode document and removes the upload from the queue.
\<close>

theorem bulk_link_unchecked_series:
  "link_season_bulk (\<lambda>i. NoFault) (\<lambda>i. 9) ''no-such-title'' 1 1 7
     \<lparr>media = [], films = [], episodes = [],
      upload_queue = [\<lparr>user_id = 7, file_id = ''a'', bot_name = ''b'', message_id = Some 31,
                       timestamp = 1, qid = 0\<rparr>],
      next_oid = 1\<rparr>
   = (Inr \<lparr>r_media_id = ''no-such-title'', r_season = 1, total_episodes = 1,
           linked_successfully = 1,
           details = [\<lparr>episode = 1, success = True, error_msg = None\<rparr>]\<rparr>,
      \<lparr>media = [], films = [],
       episodes = [\<lparr>media_id = ''no-such-title'', att_file_id = ''a'', att_message_id = Some 31,
                    storage_bot = ''b'', uploader_id = 7, linked_at = 9,
                    season_number = 1, episode_number = 1\<rparr>],
       upload_queue = [], next_oid = 1\<rparr>)"
  by (simp add: link_season_bulk_def find_queue_def limit_def bulk_doc_def Let_def)

section \<open>The loop of the bulk link\<close>

text \<open>
  The loop is characterised for an arbitrary fault oracle: the outcomes it records, the
  collections it leaves alone, the queue it leaves and the episode documents it writes.
\<close>

lemma link_loop_details:
  "fst (link_loop F clock m s u i ups linked d) = linked @ map (outcome F) [i..<i + length ups]"
proof (induction ups arbitrary: i linked d)
  case Nil
  then show ?case by simp
next
  case (Cons up rest)
  have "[i..<i + length (up # rest)] = i # [Suc i..<Suc i + length rest]"
    by (subst upt_rec) simp
  then show ?case
    by (cases "F i") (simp_all add: Cons.IH Let_def outcome_def)
qed

lemma link_loop_frame:
  "media (snd (link_loop F clock m s u i ups linked d)) = media d \<and>
   films (snd (link_loop F clock m s u i ups linked d)) = films d \<and>
   next_oid (snd (link_loop F clock m s u i ups linked d)) = next_oid d"
proof (induction ups arbitrary: i linked d)
  case Nil
  then show ?case by simp
next
  case (Cons up rest)
  show ?case by (cases "F i") (simp_all add: Cons.IH Let_def)
qed

lemma delete_one_distinct:
  "distinct (map k xs) \<Longrightarrow> delete_one (\<lambda>x. k x = a) xs = filter (\<lambda>x. k x \<noteq> a) xs"
proof (induction xs)
  case Nil
  then show ?case by simp
next
  case (Cons x xs)
  show ?case
  proof (cases "k x = a")
    case True
    with Cons.prems have "\<forall>y\<in>set xs. k y \<noteq> a" by (auto simp: image_iff)
    then have "filter (\<lambda>x. k x \<noteq> a) xs = xs" by (simp add: filter_id_conv)
    with True show ?thesis by simp
  next
    case False
    with Cons show ?thesis by simp
  qed
qed

lemma link_loop_queue:
  "distinct (map qid (upload_queue d)) \<Longrightarrow>
   upload_queue (snd (link_loop F clock m s u i ups linked d))
   = filter (\<lambda>q. \<forall>j<length ups. F (i + j) = NoFault \<longrightarrow> qid (ups ! j) \<noteq> qid q) (upload_queue d)"
proof (induction ups arbitrary: i linked d)
  case Nil
  then show ?case by simp
next
  case (Cons up rest)
  show ?case
  proof (cases "F i = NoFault")
    case True
    let ?d1 = "d\<lparr>episodes := replace_one (episode_key m s (int i + 1))
                    (bulk_doc m s (int i + 1) u (clock i) up) (episodes d),
                  upload_queue := delete_one (\<lambda>q. qid q = qid up) (upload_queue d)\<rparr>"
    have q1: "upload_queue ?d1 = filter (\<lambda>q. qid q \<noteq> qid up) (upload_queue d)"
      using Cons.prems by (simp add: delete_one_distinct)
    have "distinct (map qid (upload_queue ?d1))"
      unfolding q1 using Cons.prems by (rule distinct_map_filter)
    from Cons.IH [OF this, of "Suc i"] True q1 show ?thesis
      by (simp add: Let_def All_less_Suc2 conj_commute eq_commute [of "qid up"])
  next
    case False
    then show ?thesis
      using Cons.IH [OF Cons.prems, of "Suc i"] Cons.prems
      by (cases "F i")
         (simp_all add: Let_def All_less_Suc2 Cons.IH)
  qed
qed


lemma episode_key_bulk_doc [simp]:
  "episode_key m' s' e' (bulk_doc m s e u t up) = (m' = m \<and> s' = s \<and> e' = e)"
  by (auto simp: episode_key_def bulk_doc_def)

lemma find_one_upsert_episode:
  "find_one (episode_key m' s' e') (replace_one (episode_key m s e) (bulk_doc m s e u t up) xs)
   = (if m' = m \<and> s' = s \<and> e' = e then Some (bulk_doc m s e u t up)
      else find_one (episode_key m' s' e') xs)"
proof (cases "m' = m \<and> s' = s \<and> e' = e")
  case True
  then show ?thesis by (simp add: find_one_replace_one_same)
next
  case False
  have "find_one (episode_key m' s' e') (replace_one (episode_key m s e) (bulk_doc m s e u t up) xs)
        = find_one (episode_key m' s' e') xs"
  proof (rule find_one_replace_one_other)
    show "\<not> episode_key m' s' e' (bulk_doc m s e u t up)" using False by simp
    show "\<And>x. episode_key m' s' e' x \<Longrightarrow> \<not> episode_key m s e x"
      using False by (auto simp: episode_key_def)
  qed
  with False show ?thesis by auto
qed

lemma link_loop_episodes_frame:
  "\<not> (m' = m \<and> s' = s \<and> (\<exists>j<length ups. e' = int (i + j) + 1 \<and> \<not> upsert_raises (F (i + j)))) \<Longrightarrow>
   find_one (episode_key m' s' e') (episodes (snd (link_loop F clock m s u i ups linked d)))
   = find_one (episode_key m' s' e') (episodes d)"
proof (induction ups arbitrary: i linked d)
  case Nil
  then show ?case by simp
next
  case (Cons up rest)
  from Cons.prems
  have rest: "\<not> (m' = m \<and> s' = s \<and> (\<exists>j<length rest. e' = int (Suc i + j) + 1 \<and> \<not> upsert_raises (F (Suc i + j))))"
    by (auto simp: Ex_less_Suc2)
  from Cons.prems
  have here: "\<not> upsert_raises (F i) \<Longrightarrow> \<not> (m' = m \<and> s' = s \<and> e' = int i + 1)"
    by (auto simp: Ex_less_Suc2)
  show ?case
  proof (cases "F i")
    case NoFault
    with here show ?thesis
      by (auto simp: Let_def Cons.IH [OF rest] find_one_upsert_episode)
  next
    case (UpsertRaises x)
    then show ?thesis by (simp add: Let_def Cons.IH [OF rest])
  next
    case (DeleteRaises x)
    with here show ?thesis
      by (auto simp: Let_def Cons.IH [OF rest] find_one_upsert_episode)
  qed
qed

lemma link_loop_episodes:
  "j < length ups \<Longrightarrow> \<not> upsert_raises (F (i + j)) \<Longrightarrow>
   find_one (episode_key m s (int (i + j) + 1)) (episodes (snd (link_loop F clock m s u i ups linked d)))
   = Some (bulk_doc m s (int (i + j) + 1) u (clock (i + j)) (ups ! j))"
proof (induction ups arbitrary: i j linked d)
  case Nil
  then show ?case by simp
next
  case (Cons up rest)
  show ?case
  proof (cases j)
    case 0
    have fr: "\<not> (m = m \<and> s = s \<and> (\<exists>k<length rest. int i + 1 = int (Suc i + k) + 1
                 \<and> \<not> upsert_raises (F (Suc i + k))))"
      by auto
    from Cons.prems 0 have nu: "\<not> upsert_raises (F i)" by simp
    show ?thesis
    proof (cases "F i")
      case NoFault
      then show ?thesis using 0
        by (simp add: Let_def link_loop_episodes_frame [OF fr] find_one_upsert_episode)
    next
      case (UpsertRaises x)
      with nu show ?thesis by simp
    next
      case (DeleteRaises x)
      then show ?thesis using 0
        by (simp add: Let_def link_loop_episodes_frame [OF fr] find_one_upsert_episode)
    qed
  next
    case (Suc j')
    with Cons.prems have a: "j' < length rest" "\<not> upsert_raises (F (Suc i + j'))" by simp_all
    from Cons.IH [OF a] Suc show ?thesis
      by (cases "F i") (simp_all add: Let_def)
  qed
qed

section \<open>Bulk season linking: the batch\<close>

lemma success_outcome [simp]: "success (outcome F i) = (F i = NoFault)"
  by (simp add: outcome_def)

lemma limit_positive:
  assumes "1 \<le> n" and "n \<le> int (length xs)"
  shows "limit n xs = take (nat n) xs" and "length (take (nat n) xs) = nat n"
  using assms by (simp_all add: limit_def)

lemma link_season_bulk_passes:
  assumes "1 \<le> n" and "n \<le> int (get_queue_count u d)"
  shows "link_season_bulk F clock m s n u d
         = (Inr \<lparr>r_media_id = m, r_season = s, total_episodes = n,
                 linked_successfully = length (filter (\<lambda>i. F i = NoFault) [0..<nat n]),
                 details = map (outcome F) [0..<nat n]\<rparr>,
            snd (link_loop F clock m s u 0 (take (nat n) (find_queue u d)) [] d))"
proof -
  let ?es = "take (nat n) (find_queue u d)"
  from assms have len: "n \<le> int (length (find_queue u d))" by (simp add: length_find_queue)
  have l: "limit n (find_queue u d) = ?es" "length ?es = nat n"
    using limit_positive [OF assms(1) len] by simp_all
  have g: "\<not> int (length ?es) < n" using l(2) assms(1) by simp
  have f: "fst (link_loop F clock m s u 0 ?es [] d) = map (outcome F) [0..<nat n]"
    using link_loop_details [of F clock m s u 0 ?es "[]" d] l(2) by simp
  show ?thesis
    unfolding link_season_bulk_def l(1) Let_def
    using g f by (simp add: case_prod_unfold filter_map o_def)
qed

lemma peek_subset:
  "set (take k (find_queue u d)) \<subseteq> {q \<in> set (upload_queue d). user_id q = u}"
proof -
  have "set (take k (find_queue u d)) \<subseteq> set (find_queue u d)" by (rule set_take_subset)
  then show ?thesis by (auto simp: find_queue_def)
qed

lemma distinct_find_queue:
  "distinct (map qid (upload_queue d)) \<Longrightarrow> distinct (map qid (find_queue u d))"
proof -
  assume a: "distinct (map qid (upload_queue d))"
  have "distinct (map qid (filter (\<lambda>q. user_id q = u) (upload_queue d)))"
    using a by (rule distinct_map_filter)
  then show ?thesis by (simp add: find_queue_def distinct_map)
qed

lemma distinct_peek:
  "distinct (map qid (upload_queue d)) \<Longrightarrow> distinct (map qid (take k (find_queue u d)))"
proof -
  assume "distinct (map qid (upload_queue d))"
  then have "distinct (map qid (find_queue u d))" by (rule distinct_find_queue)
  then have "distinct (take k (map qid (find_queue u d)))" by (rule distinct_take)
  then show ?thesis by (simp add: take_map)
qed

lemma peek_qid_eq:
  assumes "distinct (map qid (upload_queue d))"
    and "i < length (take k (find_queue u d))" and "j < length (take k (find_queue u d))"
  shows "(qid (take k (find_queue u d) ! i) = qid (take k (find_queue u d) ! j)) = (i = j)"
proof -
  let ?es = "take k (find_queue u d)"
  have "distinct (map qid ?es)" using assms(1) by (rule distinct_peek)
  moreover have "i < length (map qid ?es)" "j < length (map qid ?es)" using assms(2,3) by simp_all
  ultimately have "(map qid ?es ! i = map qid ?es ! j) = (i = j)" by (rule nth_eq_iff_index_eq)
  with assms(2,3) show ?thesis by simp
qed

lemma filter_not_taken: "distinct xs \<Longrightarrow> filter (\<lambda>x. x \<notin> set (take k xs)) xs = drop k xs"
proof -
  assume d: "distinct xs"
  then have disj: "set (take k xs) \<inter> set (drop k xs) = {}"
    by (rule set_take_disj_set_drop_if_distinct) simp
  have e: "filter (\<lambda>x. x \<notin> set (take k xs)) (take k xs) = []"
    by (simp add: filter_empty_conv)
  have k: "filter (\<lambda>x. x \<notin> set (take k xs)) (drop k xs) = drop k xs"
    using disj by (auto simp: filter_id_conv)
  have "filter (\<lambda>x. x \<notin> set (take k xs)) xs
        = filter (\<lambda>x. x \<notin> set (take k xs)) (take k xs @ drop k xs)"
    by simp
  also have "\<dots> = filter (\<lambda>x. x \<notin> set (take k xs)) (take k xs)
                   @ filter (\<lambda>x. x \<notin> set (take k xs)) (drop k xs)"
    by (simp only: filter_append)
  also have "\<dots> = drop k xs" by (simp only: e k append_Nil)
  finally show ?thesis by simp
qed


lemma bulk_queue_after:
  assumes "1 \<le> n" and "n \<le> int (get_queue_count u d)"
    and "distinct (map qid (upload_queue d))"
  shows "upload_queue (snd (link_season_bulk F clock m s n u d))
         = filter (\<lambda>q. \<forall>j<nat n. F j = NoFault \<longrightarrow> qid (take (nat n) (find_queue u d) ! j) \<noteq> qid q)
             (upload_queue d)"
proof -
  define es where "es = take (nat n) (find_queue u d)"
  have len: "length es = nat n" using assms(1,2) by (simp add: es_def length_find_queue)
  have d': "snd (link_season_bulk F clock m s n u d) = snd (link_loop F clock m s u 0 es [] d)"
    by (simp add: link_season_bulk_passes [OF assms(1,2)] es_def)
  have "upload_queue (snd (link_season_bulk F clock m s n u d))
        = filter (\<lambda>q. \<forall>j<nat n. F j = NoFault \<longrightarrow> qid (es ! j) \<noteq> qid q) (upload_queue d)"
    using link_loop_queue [OF assms(3), of F clock m s u 0 es "[]"] len d' by simp
  then show ?thesis unfolding es_def .
qed

text \<open>
  C4. Take a bulk link of \<open>n \<ge> 1\<close> episodes that passes the guard, with any pattern of
  store failures \<open>F\<close>, and let \<open>es\<close> be the \<open>n\<close> peeked uploads. The request
  succeeds; \<open>details\<close> holds one outcome for each episode number 1..n, in order, each
  decided by the fault of its own item only; \<open>linked_successfully\<close> is the number of
  items without a fault. Every upload whose item failed is still in the queue, every
  upload whose item succeeded is gone from it, every item whose upsert did not raise has
  its episode document written whatever happened to the other items, and an item whose
  upsert raised leaves its episode as it was.
\<close>

theorem bulk_partial_failure:
  assumes "1 \<le> n" and "n \<le> int (get_queue_count u d)"
    and "distinct (map qid (upload_queue d))"
  shows "fst (link_season_bulk F clock m s n u d)
           = Inr \<lparr>r_media_id = m, r_season = s, total_episodes = n,
                  linked_successfully = length (filter (\<lambda>i. F i = NoFault) [0..<nat n]),
                  details = map (outcome F) [0..<nat n]\<rparr> \<and>
         (\<forall>i<nat n. F i \<noteq> NoFault \<longrightarrow>
            take (nat n) (get_queue u d) ! i
              \<in> set (upload_queue (snd (link_season_bulk F clock m s n u d)))) \<and>
         (\<forall>i<nat n. F i = NoFault \<longrightarrow>
            take (nat n) (get_queue u d) ! i
              \<notin> set (upload_queue (snd (link_season_bulk F clock m s n u d)))) \<and>
         (\<forall>i<nat n. \<not> upsert_raises (F i) \<longrightarrow>
            get_episode m s (int i + 1) (snd (link_season_bulk F clock m s n u d))
              = Inr (bulk_doc m s (int i + 1) u (clock i) (take (nat n) (get_queue u d) ! i))) \<and>
         (\<forall>i<nat n. upsert_raises (F i) \<longrightarrow>
            get_episode m s (int i + 1) (snd (link_season_bulk F clock m s n u d))
              = get_episode m s (int i + 1) d)"
proof -
  define es where "es = take (nat n) (find_queue u d)"
  define d' where "d' = snd (link_season_bulk F clock m s n u d)"
  have len: "length es = nat n" using assms(1,2) by (simp add: es_def length_find_queue)
  have d': "d' = snd (link_loop F clock m s u 0 es [] d)"
    by (simp add: d'_def link_season_bulk_passes [OF assms(1,2)] es_def)
  have q: "upload_queue d'
           = filter (\<lambda>q. \<forall>j<nat n. F j = NoFault \<longrightarrow> qid (es ! j) \<noteq> qid q) (upload_queue d)"
    unfolding d'_def es_def using assms by (rule bulk_queue_after)
  have mem: "es ! i \<in> set (upload_queue d)" if "i < nat n" for i
  proof -
    from that len have "es ! i \<in> set es" by simp
    with peek_subset [of "nat n" u d] show ?thesis unfolding es_def by blast
  qed
  have 1: "fst (link_season_bulk F clock m s n u d)
           = Inr \<lparr>r_media_id = m, r_season = s, total_episodes = n,
                  linked_successfully = length (filter (\<lambda>i. F i = NoFault) [0..<nat n]),
                  details = map (outcome F) [0..<nat n]\<rparr>"
    by (simp add: link_season_bulk_passes [OF assms(1,2)])
  have 2: "es ! i \<in> set (upload_queue d')" if i: "i < nat n" and f: "F i \<noteq> NoFault" for i
  proof -
    have "qid (es ! j) \<noteq> qid (es ! i)" if "j < nat n" "F j = NoFault" for j
    proof -
      from that f have "j \<noteq> i" by auto
      moreover have "j < length es" "i < length es" using that(1) i len by simp_all
      ultimately show ?thesis
        using peek_qid_eq [OF assms(3), of j "nat n" u i] unfolding es_def by simp
    qed
    with mem [OF i] show ?thesis unfolding q by simp
  qed
  have 3: "es ! i \<notin> set (upload_queue d')" if "i < nat n" and "F i = NoFault" for i
    unfolding q using that by auto
  have 4: "get_episode m s (int i + 1) d' = Inr (bulk_doc m s (int i + 1) u (clock i) (es ! i))"
    if "i < nat n" and "\<not> upsert_raises (F i)" for i
  proof -
    from that len have "i < length es" "\<not> upsert_raises (F (0 + i))" by simp_all
    with link_loop_episodes [where j = i and ups = es and F = F and i = 0 and clock = clock
           and m = m and s = s and u = u and linked = "[]" and d = d]
    show ?thesis by (simp add: get_episode_def d')
  qed
  have 5: "get_episode m s (int i + 1) d' = get_episode m s (int i + 1) d"
    if "i < nat n" and "upsert_raises (F i)" for i
  proof -
    from that
    have "\<not> (m = m \<and> s = s \<and> (\<exists>j<length es. int i + 1 = int (0 + j) + 1 \<and> \<not> upsert_raises (F (0 + j))))"
      by auto
    with link_loop_episodes_frame [where m' = m and s' = s and e' = "int i + 1" and ups = es
           and F = F and i = 0 and clock = clock and m = m and s = s and u = u
           and linked = "[]" and d = d]
    show ?thesis by (simp add: get_episode_def d')
  qed
  from 1 2 3 4 5 show ?thesis unfolding get_queue_def d'_def es_def by blast
qed


lemma bulk_queue_all_succeed:
  assumes "1 \<le> n" and "n \<le> int (get_queue_count u d)"
    and "distinct (map qid (upload_queue d))" and "\<forall>i<nat n. F i = NoFault"
  shows "upload_queue (snd (link_season_bulk F clock m s n u d))
         = filter (\<lambda>q. q \<notin> set (take (nat n) (find_queue u d))) (upload_queue d)"
proof -
  define es where "es = take (nat n) (find_queue u d)"
  have len: "length es = nat n" using assms(1,2) by (simp add: es_def length_find_queue)
  have sub: "set es \<subseteq> set (upload_queue d)"
    using peek_subset [of "nat n" u d] unfolding es_def by blast
  have inj: "inj_on qid (set (upload_queue d))" using assms(3) by (simp add: distinct_map)
  have "(\<forall>j<nat n. F j = NoFault \<longrightarrow> qid (es ! j) \<noteq> qid q) = (q \<notin> set es)"
    if q: "q \<in> set (upload_queue d)" for q
  proof
    assume a: "\<forall>j<nat n. F j = NoFault \<longrightarrow> qid (es ! j) \<noteq> qid q"
    show "q \<notin> set es"
    proof
      assume "q \<in> set es"
      then obtain j where "j < length es" "es ! j = q" by (auto simp: in_set_conv_nth)
      with a len assms(4) show False by auto
    qed
  next
    assume b: "q \<notin> set es"
    show "\<forall>j<nat n. F j = NoFault \<longrightarrow> qid (es ! j) \<noteq> qid q"
    proof (intro allI impI)
      fix j assume j: "j < nat n"
      with len have m: "es ! j \<in> set es" by simp
      show "qid (es ! j) \<noteq> qid q"
      proof
        assume "qid (es ! j) = qid q"
        with inj m sub q have "es ! j = q" by (auto dest: inj_onD)
        with m b show False by simp
      qed
    qed
  qed
  then have "filter (\<lambda>q. \<forall>j<nat n. F j = NoFault \<longrightarrow> qid (es ! j) \<noteq> qid q) (upload_queue d)
             = filter (\<lambda>q. q \<notin> set es) (upload_queue d)"
    by (intro filter_cong) auto
  with bulk_queue_after [OF assms(1,2,3), of F clock m s]
  show ?thesis unfolding es_def by simp
qed

lemma find_queue_after_removal:
  assumes "distinct (map qid (upload_queue d))"
    and "upload_queue d' = filter (\<lambda>q. q \<notin> set (take k (find_queue u d))) (upload_queue d)"
  shows "find_queue u d' = drop k (find_queue u d)"
proof -
  let ?S = "find_queue u d"
  from assms(1) have "distinct (upload_queue d)" by (simp add: distinct_map)
  then have dS: "distinct ?S" by (simp add: find_queue_def)
  have "find_queue u d'
        = sort_key timestamp (filter (\<lambda>q. q \<notin> set (take k ?S))
            (filter (\<lambda>q. user_id q = u) (upload_queue d)))"
    by (simp add: find_queue_def [of u d'] assms(2) conj_commute)
  also have "\<dots> = filter (\<lambda>q. q \<notin> set (take k ?S)) ?S"
    by (simp add: filter_sort find_queue_def [of u d])
  also have "\<dots> = drop k ?S" using dS by (rule filter_not_taken)
  finally show ?thesis .
qed


text \<open>
  C3, as the code has it. Take a bulk link of \<open>n \<ge> 1\<close> episodes that passes the
  guard and in which no store call fails, and let \<open>e\<^sub>1..e\<^sub>n\<close> be the first \<open>n\<close>
  documents of the uploader's queue as the queue is read, that is in ascending order of
  their enqueue timestamps. Then the request succeeds with \<open>n\<close> successes, episode
  \<open>i\<close> of the season holds the content fields of \<open>e\<^sub>i\<close> for every \<open>i\<close> in 1..n (the
  number is the position, no field of the upload enters it), exactly these \<open>n\<close>
  documents are removed from the queue, the uploader's queue read afterwards is the old
  one without its first \<open>n\<close> documents, and the queue count has gone down by \<open>n\<close>.
\<close>

theorem bulk_link_positional:
  assumes "1 \<le> n" and "n \<le> int (get_queue_count u d)"
    and "distinct (map qid (upload_queue d))" and "\<forall>i<nat n. F i = NoFault"
  shows "fst (link_season_bulk F clock m s n u d)
           = Inr \<lparr>r_media_id = m, r_season = s, total_episodes = n,
                  linked_successfully = nat n,
                  details = map (\<lambda>i. \<lparr>episode = int i + 1, success = True, error_msg = None\<rparr>)
                              [0..<nat n]\<rparr> \<and>
         (\<forall>i<nat n.
            get_episode m s (int i + 1) (snd (link_season_bulk F clock m s n u d))
              = Inr (bulk_doc m s (int i + 1) u (clock i) (take (nat n) (get_queue u d) ! i))) \<and>
         upload_queue (snd (link_season_bulk F clock m s n u d))
           = filter (\<lambda>q. q \<notin> set (take (nat n) (get_queue u d))) (upload_queue d) \<and>
         get_queue u (snd (link_season_bulk F clock m s n u d)) = drop (nat n) (get_queue u d) \<and>
         int (get_queue_count u (snd (link_season_bulk F clock m s n u d)))
           = int (get_queue_count u d) - n"
proof -
  define es where "es = take (nat n) (find_queue u d)"
  define d' where "d' = snd (link_season_bulk F clock m s n u d)"
  have len: "length es = nat n" using assms(1,2) by (simp add: es_def length_find_queue)
  have d': "d' = snd (link_loop F clock m s u 0 es [] d)"
    by (simp add: d'_def link_season_bulk_passes [OF assms(1,2)] es_def)
  have all: "filter (\<lambda>i. F i = NoFault) [0..<nat n] = [0..<nat n]"
    using assms(4) by (simp add: filter_id_conv)
  have out: "map (outcome F) [0..<nat n]
             = map (\<lambda>i. \<lparr>episode = int i + 1, success = True, error_msg = None\<rparr>) [0..<nat n]"
    using assms(4) by (simp add: outcome_def)
  have 1: "fst (link_season_bulk F clock m s n u d)
           = Inr \<lparr>r_media_id = m, r_season = s, total_episodes = n,
                  linked_successfully = nat n,
                  details = map (\<lambda>i. \<lparr>episode = int i + 1, success = True, error_msg = None\<rparr>)
                              [0..<nat n]\<rparr>"
    by (simp add: link_season_bulk_passes [OF assms(1,2)] all out)
  have 2: "get_episode m s (int i + 1) d' = Inr (bulk_doc m s (int i + 1) u (clock i) (es ! i))"
    if "i < nat n" for i
  proof -
    from that len assms(4) have "i < length es" "\<not> upsert_raises (F (0 + i))" by simp_all
    with link_loop_episodes [where j = i and ups = es and F = F and i = 0 and clock = clock
           and m = m and s = s and u = u and linked = "[]" and d = d]
    show ?thesis by (simp add: get_episode_def d')
  qed
  have 3: "upload_queue d' = filter (\<lambda>q. q \<notin> set es) (upload_queue d)"
    unfolding d'_def es_def using assms by (rule bulk_queue_all_succeed)
  have 4: "find_queue u d' = drop (nat n) (find_queue u d)"
    using assms(3) 3 [unfolded es_def] by (rule find_queue_after_removal)
  have "get_queue_count u d' = length (find_queue u d')" by (simp add: length_find_queue)
  also have "\<dots> = get_queue_count u d - nat n" by (simp add: 4 length_find_queue)
  finally have 5: "int (get_queue_count u d') = int (get_queue_count u d) - n"
    using assms(1,2) by simp
  from 1 2 3 4 5 show ?thesis unfolding get_queue_def d'_def es_def by blast
qed

text \<open>
  The clock may step back between two enqueues. User 7 enqueues \<open>a\<close> when the clock
  reads 5 and then \<open>b\<close> when it reads 3; a bulk link of two episodes gives episode 1
  the file of \<open>b\<close>, the upload that arrived second.
\<close>

theorem bulk_link_arrival_order_counterexample:
  "get_episode ''5f2b9c0a7D3E4f6a8b9c0d2e'' 1 1
     (snd (link_season_bulk (\<lambda>i. NoFault) (\<lambda>i. 9) ''5f2b9c0a7D3E4f6a8b9c0d2e'' 1 2 7
        (enqueue_all
           [(\<lparr>user_id = 7, file_id = ''a'', bot_name = ''bot'', message_id = Some 31\<rparr>, 5),
            (\<lparr>user_id = 7, file_id = ''b'', bot_name = ''bot'', message_id = Some 32\<rparr>, 3)]
           \<lparr>media = [], films = [], episodes = [], upload_queue = [], next_oid = 0\<rparr>)))
   = Inr \<lparr>media_id = ''5f2b9c0a7D3E4f6a8b9c0d2e'', att_file_id = ''b'', att_message_id = Some 32,
          storage_bot = ''bot'', uploader_id = 7, linked_at = 9,
          season_number = 1, episode_number = 1\<rparr>"
  by (simp add: link_season_bulk_def find_queue_def limit_def bulk_doc_def Let_def
      add_to_queue_def queue_entry_def get_episode_def find_one_def episode_key_def)


text \<open>
  Three uploads \<open>a\<close>, \<open>b\<close>, \<open>c\<close> of user 7 with one upload of user 8 between them;
  a bulk link of two episodes gives episode 2 the upload \<open>b\<close> and leaves user 7 one
  queued upload.
\<close>

theorem bulk_link_positional_witness:
  "get_episode ''5f2b9c0a7D3E4f6a8b9c0d2e'' 1 2
     (snd (link_season_bulk (\<lambda>i. NoFault) (\<lambda>i. 50 + int i) ''5f2b9c0a7D3E4f6a8b9c0d2e'' 1 2 7
       \<lparr>media = [], films = [], episodes = [],
      upload_queue = [\<lparr>user_id = 7, file_id = ''a'', bot_name = ''bot'', message_id = Some 31,
                       timestamp = 10, qid = 10\<rparr>,
                      \<lparr>user_id = 8, file_id = ''x'', bot_name = ''bot'', message_id = None,
                       timestamp = 20, qid = 11\<rparr>,
                      \<lparr>user_id = 7, file_id = ''b'', bot_name = ''bot'', message_id = Some 33,
                       timestamp = 30, qid = 12\<rparr>,
                      \<lparr>user_id = 7, file_id = ''c'', bot_name = ''bot'', message_id = Some 34,
                       timestamp = 40, qid = 13\<rparr>],
      next_oid = 14\<rparr>))
   = Inr \<lparr>media_id = ''5f2b9c0a7D3E4f6a8b9c0d2e'', att_file_id = ''b'', att_message_id = Some 33,
          storage_bot = ''bot'', uploader_id = 7, linked_at = 51,
          season_number = 1, episode_number = 2\<rparr> \<and>
   get_queue 7
     (snd (link_season_bulk (\<lambda>i. NoFault) (\<lambda>i. 50 + int i) ''5f2b9c0a7D3E4f6a8b9c0d2e'' 1 2 7
       \<lparr>media = [], films = [], episodes = [],
      upload_queue = [\<lparr>user_id = 7, file_id = ''a'', bot_name = ''bot'', message_id = Some 31,
                       timestamp = 10, qid = 10\<rparr>,
                      \<lparr>user_id = 8, file_id = ''x'', bot_name = ''bot'', message_id = None,
                       timestamp = 20, qid = 11\<rparr>,
                      \<lparr>user_id = 7, file_id = ''b'', bot_name = ''bot'', message_id = Some 33,
                       timestamp = 30, qid = 12\<rparr>,
                      \<lparr>user_id = 7, file_id = ''c'', bot_name = ''bot'', message_id = Some 34,
                       timestamp = 40, qid = 13\<rparr>],
      next_oid = 14\<rparr>))
   = [\<lparr>user_id = 7, file_id = ''c'', bot_name = ''bot'', message_id = Some 34,
                       timestamp = 40, qid = 13\<rparr>] \<and>
   int (get_queue_count 7
     (snd (link_season_bulk (\<lambda>i. NoFault) (\<lambda>i. 50 + int i) ''5f2b9c0a7D3E4f6a8b9c0d2e'' 1 2 7
       \<lparr>media = [], films = [], episodes = [],
      upload_queue = [\<lparr>user_id = 7, file_id = ''a'', bot_name = ''bot'', message_id = Some 31,
                       timestamp = 10, qid = 10\<rparr>,
                      \<lparr>user_id = 8, file_id = ''x'', bot_name = ''bot'', message_id = None,
                       timestamp = 20, qid = 11\<rparr>,
                      \<lparr>user_id = 7, file_id = ''b'', bot_name = ''bot'', message_id = Some 33,
                       timestamp = 30, qid = 12\<rparr>,
                      \<lparr>user_id = 7, file_id = ''c'', bot_name = ''bot'', message_id = Some 34,
                       timestamp = 40, qid = 13\<rparr>],
      next_oid = 14\<rparr>))) = 1"
proof -
  let ?D = "\<lparr>media = [], films = [], episodes = [],
      upload_queue = [\<lparr>user_id = 7, file_id = ''a'', bot_name = ''bot'', message_id = Some 31,
                       timestamp = 10, qid = 10\<rparr>,
                      \<lparr>user_id = 8, file_id = ''x'', bot_name = ''bot'', message_id = None,
                       timestamp = 20, qid = 11\<rparr>,
                      \<lparr>user_id = 7, file_id = ''b'', bot_name = ''bot'', message_id = Some 33,
                       timestamp = 30, qid = 12\<rparr>,
                      \<lparr>user_id = 7, file_id = ''c'', bot_name = ''bot'', message_id = Some 34,
                       timestamp = 40, qid = 13\<rparr>],
      next_oid = 14\<rparr>"
  have h1: "1 \<le> (2::int)" by simp
  have c: "get_queue_count 7 ?D = 3" by (simp add: get_queue_count_def count_documents_def)
  have h2: "2 \<le> int (get_queue_count 7 ?D)" by (simp add: get_queue_count_def count_documents_def)
  have h3: "distinct (map qid (upload_queue ?D))" by simp
  have h4: "\<forall>i<nat 2. (\<lambda>i. NoFault) i = NoFault" by simp
  have g: "get_queue 7 ?D = [\<lparr>user_id = 7, file_id = ''a'', bot_name = ''bot'', message_id = Some 31,
                       timestamp = 10, qid = 10\<rparr>, \<lparr>user_id = 7, file_id = ''b'', bot_name = ''bot'', message_id = Some 33,
                       timestamp = 30, qid = 12\<rparr>, \<lparr>user_id = 7, file_id = ''c'', bot_name = ''bot'', message_id = Some 34,
                       timestamp = 40, qid = 13\<rparr>]"
    by (simp add: get_queue_def find_queue_def)
  note t = bulk_link_positional [OF h1 h2 h3 h4, of "\<lambda>i. 50 + int i" "''5f2b9c0a7D3E4f6a8b9c0d2e''" 1]
  have lt: "(1::nat) < nat 2" by simp
  have e: "get_episode ''5f2b9c0a7D3E4f6a8b9c0d2e'' 1 2
       (snd (link_season_bulk (\<lambda>i. NoFault) (\<lambda>i. 50 + int i) ''5f2b9c0a7D3E4f6a8b9c0d2e'' 1 2 7 ?D))
     = Inr \<lparr>media_id = ''5f2b9c0a7D3E4f6a8b9c0d2e'', att_file_id = ''b'', att_message_id = Some 33,
          storage_bot = ''bot'', uploader_id = 7, linked_at = 51,
          season_number = 1, episode_number = 2\<rparr>"
    using t [THEN conjunct2, THEN conjunct1, rule_format, OF lt]
    unfolding g by (simp add: bulk_doc_def)
  have q: "get_queue 7
       (snd (link_season_bulk (\<lambda>i. NoFault) (\<lambda>i. 50 + int i) ''5f2b9c0a7D3E4f6a8b9c0d2e'' 1 2 7 ?D))
     = [\<lparr>user_id = 7, file_id = ''c'', bot_name = ''bot'', message_id = Some 34,
                       timestamp = 40, qid = 13\<rparr>]"
    using t [THEN conjunct2, THEN conjunct2, THEN conjunct2, THEN conjunct1]
    unfolding g by simp
  have k: "int (get_queue_count 7
       (snd (link_season_bulk (\<lambda>i. NoFault) (\<lambda>i. 50 + int i) ''5f2b9c0a7D3E4f6a8b9c0d2e'' 1 2 7 ?D)))
     = 1"
    using t [THEN conjunct2, THEN conjunct2, THEN conjunct2, THEN conjunct2]
    unfolding c by simp
  from e q k show ?thesis by blast
qed

text \<open>
  The same queue, three episodes requested, the upsert of episode 2 forced to fail:
  two successes are reported, the upload \<open>b\<close> stays in the queue, and episode 3 is
  linked to \<open>c\<close> all the same.
\<close>

theorem bulk_partial_failure_witness:
  "fst (link_season_bulk (\<lambda>i. if i = 1 then UpsertRaises ''boom'' else NoFault) (\<lambda>i. 50 + int i)
          ''5f2b9c0a7D3E4f6a8b9c0d2e'' 1 3 7
       \<lparr>media = [], films = [], episodes = [],
      upload_queue = [\<lparr>user_id = 7, file_id = ''a'', bot_name = ''bot'', message_id = Some 31,
                       timestamp = 10, qid = 10\<rparr>,
                      \<lparr>user_id = 8, file_id = ''x'', bot_name = ''bot'', message_id = None,
                       timestamp = 20, qid = 11\<rparr>,
                      \<lparr>user_id = 7, file_id = ''b'', bot_name = ''bot'', message_id = Some 33,
                       timestamp = 30, qid = 12\<rparr>,
                      \<lparr>user_id = 7, file_id = ''c'', bot_name = ''bot'', message_id = Some 34,
                       timestamp = 40, qid = 13\<rparr>],
      next_oid = 14\<rparr>)
   = Inr \<lparr>r_media_id = ''5f2b9c0a7D3E4f6a8b9c0d2e'', r_season = 1, total_episodes = 3,
          linked_successfully = 2,
          details = [\<lparr>episode = 1, success = True, error_msg = None\<rparr>,
                     \<lparr>episode = 2, success = False, error_msg = Some ''boom''\<rparr>,
                     \<lparr>episode = 3, success = True, error_msg = None\<rparr>]\<rparr> \<and>
   \<lparr>user_id = 7, file_id = ''b'', bot_name = ''bot'', message_id = Some 33,
                       timestamp = 30, qid = 12\<rparr> \<in> set (upload_queue
       (snd (link_season_bulk (\<lambda>i. if i = 1 then UpsertRaises ''boom'' else NoFault)
          (\<lambda>i. 50 + int i) ''5f2b9c0a7D3E4f6a8b9c0d2e'' 1 3 7
       \<lparr>media = [], films = [], episodes = [],
      upload_queue = [\<lparr>user_id = 7, file_id = ''a'', bot_name = ''bot'', message_id = Some 31,
                       timestamp = 10, qid = 10\<rparr>,
                      \<lparr>user_id = 8, file_id = ''x'', bot_name = ''bot'', message_id = None,
                       timestamp = 20, qid = 11\<rparr>,
                      \<lparr>user_id = 7, file_id = ''b'', bot_name = ''bot'', message_id = Some 33,
                       timestamp = 30, qid = 12\<rparr>,
                      \<lparr>user_id = 7, file_id = ''c'', bot_name = ''bot'', message_id = Some 34,
                       timestamp = 40, qid = 13\<rparr>],
      next_oid = 14\<rparr>))) \<and>
   get_episode ''5f2b9c0a7D3E4f6a8b9c0d2e'' 1 3
       (snd (link_season_bulk (\<lambda>i. if i = 1 then UpsertRaises ''boom'' else NoFault)
          (\<lambda>i. 50 + int i) ''5f2b9c0a7D3E4f6a8b9c0d2e'' 1 3 7
       \<lparr>media = [], films = [], episodes = [],
      upload_queue = [\<lparr>user_id = 7, file_id = ''a'', bot_name = ''bot'', message_id = Some 31,
                       timestamp = 10, qid = 10\<rparr>,
                      \<lparr>user_id = 8, file_id = ''x'', bot_name = ''bot'', message_id = None,
                       timestamp = 20, qid = 11\<rparr>,
                      \<lparr>user_id = 7, file_id = ''b'', bot_name = ''bot'', message_id = Some 33,
                       timestamp = 30, qid = 12\<rparr>,
                      \<lparr>user_id = 7, file_id = ''c'', bot_name = ''bot'', message_id = Some 34,
                       timestamp = 40, qid = 13\<rparr>],
      next_oid = 14\<rparr>))
   = Inr \<lparr>media_id = ''5f2b9c0a7D3E4f6a8b9c0d2e'', att_file_id = ''c'', att_message_id = Some 34,
          storage_bot = ''bot'', uploader_id = 7, linked_at = 52,
          season_number = 1, episode_number = 3\<rparr>"
proof -
  let ?D = "\<lparr>media = [], films = [], episodes = [],
      upload_queue = [\<lparr>user_id = 7, file_id = ''a'', bot_name = ''bot'', message_id = Some 31,
                       timestamp = 10, qid = 10\<rparr>,
                      \<lparr>user_id = 8, file_id = ''x'', bot_name = ''bot'', message_id = None,
                       timestamp = 20, qid = 11\<rparr>,
                      \<lparr>user_id = 7, file_id = ''b'', bot_name = ''bot'', message_id = Some 33,
                       timestamp = 30, qid = 12\<rparr>,
                      \<lparr>user_id = 7, file_id = ''c'', bot_name = ''bot'', message_id = Some 34,
                       timestamp = 40, qid = 13\<rparr>],
      next_oid = 14\<rparr>"
  let ?F = "\<lambda>i::nat. if i = 1 then UpsertRaises ''boom'' else NoFault"
  let ?r = "link_season_bulk ?F (\<lambda>i. 50 + int i) ''5f2b9c0a7D3E4f6a8b9c0d2e'' 1 3 7 ?D"
  have h1: "1 \<le> (3::int)" by simp
  have c: "get_queue_count 7 ?D = 3" by (simp add: get_queue_count_def count_documents_def)
  have h2: "3 \<le> int (get_queue_count 7 ?D)" by (simp add: get_queue_count_def count_documents_def)
  have h3: "distinct (map qid (upload_queue ?D))" by simp
  have g: "get_queue 7 ?D = [\<lparr>user_id = 7, file_id = ''a'', bot_name = ''bot'', message_id = Some 31,
                       timestamp = 10, qid = 10\<rparr>, \<lparr>user_id = 7, file_id = ''b'', bot_name = ''bot'', message_id = Some 33,
                       timestamp = 30, qid = 12\<rparr>, \<lparr>user_id = 7, file_id = ''c'', bot_name = ''bot'', message_id = Some 34,
                       timestamp = 40, qid = 13\<rparr>]"
    by (simp add: get_queue_def find_queue_def)
  have up: "[0..<nat 3] = [0, 1, 2]" by (simp add: upt_rec)
  note t = bulk_partial_failure [OF h1 h2 h3, of ?F "\<lambda>i. 50 + int i" "''5f2b9c0a7D3E4f6a8b9c0d2e''" 1]
  have 1: "fst ?r = Inr \<lparr>r_media_id = ''5f2b9c0a7D3E4f6a8b9c0d2e'', r_season = 1, total_episodes = 3,
          linked_successfully = 2,
          details = [\<lparr>episode = 1, success = True, error_msg = None\<rparr>,
                     \<lparr>episode = 2, success = False, error_msg = Some ''boom''\<rparr>,
                     \<lparr>episode = 3, success = True, error_msg = None\<rparr>]\<rparr>"
    using t [THEN conjunct1] unfolding up by (simp add: outcome_def)
  have l1: "(1::nat) < nat 3" and l2: "(2::nat) < nat 3" by simp_all
  have f1: "?F 1 \<noteq> NoFault" by simp
  have f2: "\<not> upsert_raises (?F 2)" by simp
  have 2: "\<lparr>user_id = 7, file_id = ''b'', bot_name = ''bot'', message_id = Some 33,
                       timestamp = 30, qid = 12\<rparr> \<in> set (upload_queue (snd ?r))"
    using t [THEN conjunct2, THEN conjunct1, rule_format, OF l1 f1]
    unfolding g by simp
  have 3: "get_episode ''5f2b9c0a7D3E4f6a8b9c0d2e'' 1 3 (snd ?r)
   = Inr \<lparr>media_id = ''5f2b9c0a7D3E4f6a8b9c0d2e'', att_file_id = ''c'', att_message_id = Some 34,
          storage_bot = ''bot'', uploader_id = 7, linked_at = 52,
          season_number = 1, episode_number = 3\<rparr>"
    using t [THEN conjunct2, THEN conjunct2, THEN conjunct2, THEN conjunct1, rule_format, OF l2 f2]
    unfolding g by (simp add: bulk_doc_def)
  from 1 2 3 show ?thesis by blast
qed


text \<open>
  The theorems above ask for \<open>episode_count \<ge> 1\<close>. With \<open>episode_count = 0\<close> the cursor
  has no limit and the guard passes: the whole queue of the uploader is linked, here one
  upload, while the response reports \<open>total_episodes = 0\<close>.
\<close>

lemma bulk_link_zero_count:
  "link_season_bulk (\<lambda>i. NoFault) (\<lambda>i. 9) ''5f2b9c0a7D3E4f6a8b9c0d2e'' 1 0 7
     \<lparr>media = [], films = [], episodes = [],
      upload_queue = [\<lparr>user_id = 7, file_id = ''a'', bot_name = ''bot'', message_id = Some 31,
                       timestamp = 10, qid = 10\<rparr>],
      next_oid = 11\<rparr>
   = (Inr \<lparr>r_media_id = ''5f2b9c0a7D3E4f6a8b9c0d2e'', r_season = 1, total_episodes = 0,
           linked_successfully = 1,
           details = [\<lparr>episode = 1, success = True, error_msg = None\<rparr>]\<rparr>,
      \<lparr>media = [], films = [],
       episodes = [\<lparr>media_id = ''5f2b9c0a7D3E4f6a8b9c0d2e'', att_file_id = ''a'',
                    att_message_id = Some 31, storage_bot = ''bot'', uploader_id = 7,
                    linked_at = 9, season_number = 1, episode_number = 1\<rparr>],
       upload_queue = [], next_oid = 11\<rparr>)"
  by (simp add: link_season_bulk_def find_queue_def limit_def bulk_doc_def Let_def)

section \<open>The order in which the queue is read\<close>

lemma upload_queue_enqueue_all:
  "upload_queue (enqueue_all reqs d) = upload_queue d @ enqueued (next_oid d) reqs"
proof (induction reqs arbitrary: d)
  case Nil
  then show ?case by simp
next
  case (Cons r rs)
  obtain data now where r: "r = (data, now)" by (cases r)
  show ?case by (simp add: r Cons.IH add_to_queue_def)
qed

lemma timestamps_enqueued:
  "map timestamp (filter (\<lambda>q. user_id q = u) (enqueued i reqs))
   = map snd (filter (\<lambda>r. user_id (fst r) = u) reqs)"
proof (induction reqs arbitrary: i)
  case Nil
  then show ?case by simp
next
  case (Cons r rs)
  obtain data now where r: "r = (data, now)" by (cases r)
  show ?case by (simp add: r Cons.IH queue_entry_def)
qed

text \<open>
  C5, as the code has it. The queue is read in ascending order of the timestamps taken
  at enqueue. Let a sequence of enqueue requests arrive (those of user \<open>u\<close> possibly
  mixed with those of other users) while \<open>u\<close> has nothing queued, and let the clock
  readings of \<open>u\<close>'s requests increase strictly in arrival order. Then reading \<open>u\<close>'s
  queue returns \<open>u\<close>'s documents in arrival order, every prefix of the read is the
  prefix of the arrivals, and so is what the bulk link peeks with a limit \<open>k \<ge> 1\<close>.
\<close>

theorem queue_read_in_arrival_order:
  assumes "get_queue_count u d = 0"
    and "sorted_wrt (<) (map snd (filter (\<lambda>r. user_id (fst r) = u) reqs))"
  shows "get_queue u (enqueue_all reqs d)
           = filter (\<lambda>q. user_id q = u) (enqueued (next_oid d) reqs) \<and>
         (\<forall>k. take k (get_queue u (enqueue_all reqs d))
                = take k (filter (\<lambda>q. user_id q = u) (enqueued (next_oid d) reqs))) \<and>
         (\<forall>k\<ge>1. limit (int k) (find_queue u (enqueue_all reqs d))
                = take k (filter (\<lambda>q. user_id q = u) (enqueued (next_oid d) reqs)))"
proof -
  let ?E = "filter (\<lambda>q. user_id q = u) (enqueued (next_oid d) reqs)"
  from assms(1) have old: "filter (\<lambda>q. user_id q = u) (upload_queue d) = []"
    by (simp add: get_queue_count_def count_documents_def)
  from assms(2) have "sorted (map snd (filter (\<lambda>r. user_id (fst r) = u) reqs))"
    by (rule strict_sorted_imp_sorted)
  then have "sorted (map timestamp ?E)" by (simp only: timestamps_enqueued)
  then have "sort_key timestamp ?E = ?E" by (rule sort_key_id_if_sorted)
  then have f: "find_queue u (enqueue_all reqs d) = ?E"
    by (simp add: find_queue_def upload_queue_enqueue_all old)
  have l: "limit (int k) ?E = take k ?E" if "1 \<le> k" for k
    using that by (simp add: limit_def)
  from f l show ?thesis by (simp add: get_queue_def)
qed

text \<open>
  User 7 enqueues \<open>a\<close>, user 8 enqueues \<open>x\<close>, user 7 enqueues \<open>b\<close>, at clock readings
  5, 6 and 7: the queue of user 7 reads \<open>a\<close>, \<open>b\<close>.
\<close>

theorem queue_read_in_arrival_order_witness:
  "get_queue 7 (enqueue_all
     [(\<lparr>user_id = 7, file_id = ''a'', bot_name = ''bot'', message_id = Some 31\<rparr>, 5),
      (\<lparr>user_id = 8, file_id = ''x'', bot_name = ''bot'', message_id = Some 32\<rparr>, 6),
      (\<lparr>user_id = 7, file_id = ''b'', bot_name = ''bot'', message_id = Some 33\<rparr>, 7)]
     \<lparr>media = [], films = [], episodes = [], upload_queue = [], next_oid = 20\<rparr>)
   = [\<lparr>user_id = 7, file_id = ''a'', bot_name = ''bot'', message_id = Some 31,
       timestamp = 5, qid = 20\<rparr>,
      \<lparr>user_id = 7, file_id = ''b'', bot_name = ''bot'', message_id = Some 33,
       timestamp = 7, qid = 22\<rparr>]"
proof -
  let ?d = "\<lparr>media = [], films = [], episodes = [], upload_queue = [], next_oid = 20\<rparr>"
  let ?reqs = "[(\<lparr>user_id = 7, file_id = ''a'', bot_name = ''bot'', message_id = Some 31\<rparr>, 5),
      (\<lparr>user_id = 8, file_id = ''x'', bot_name = ''bot'', message_id = Some 32\<rparr>, 6),
      (\<lparr>user_id = 7, file_id = ''b'', bot_name = ''bot'', message_id = Some 33\<rparr>, 7 :: int)]"
  have h1: "get_queue_count 7 ?d = 0" by (simp add: get_queue_count_def count_documents_def)
  have h2: "sorted_wrt (<) (map snd (filter (\<lambda>r. user_id (fst r) = 7) ?reqs))" by simp
  from queue_read_in_arrival_order [OF h1 h2, THEN conjunct1]
  show ?thesis by (simp add: queue_entry_def)
qed

text \<open>
  The clock steps back between two enqueues of user 7: \<open>a\<close> arrives at reading 5,
  \<open>b\<close> after it at reading 3. The queue reads \<open>b\<close> first.
\<close>

theorem queue_read_by_timestamp_counterexample:
  "map file_id (get_queue 7 (enqueue_all
     [(\<lparr>user_id = 7, file_id = ''a'', bot_name = ''bot'', message_id = Some 31\<rparr>, 5),
      (\<lparr>user_id = 7, file_id = ''b'', bot_name = ''bot'', message_id = Some 32\<rparr>, 3)]
     \<lparr>media = [], films = [], episodes = [], upload_queue = [], next_oid = 0\<rparr>))
   = [''b'', ''a'']"
  by (simp add: get_queue_def find_queue_def add_to_queue_def queue_entry_def)

section \<open>Who owns a queued upload\<close>

lemma set_delete_one_subset: "set (delete_one p xs) \<subseteq> set xs"
  by (induction xs) auto

lemma delete_one_keeps: "x \<in> set xs \<Longrightarrow> \<not> p x \<Longrightarrow> x \<in> set (delete_one p xs)"
  by (induction xs) auto

lemma distinct_map_delete_one:
  "distinct (map k xs) \<Longrightarrow> distinct (map k (delete_one p xs))"
proof (induction xs)
  case Nil
  then show ?case by simp
next
  case (Cons x xs)
  have "k x \<notin> k ` set (delete_one p xs)" if "k x \<notin> k ` set xs"
    using that set_delete_one_subset [of p xs] by blast
  with Cons show ?case by simp
qed

lemma set_limit_subset: "set (limit n xs) \<subseteq> set xs"
  by (simp add: limit_def set_take_subset)

lemma snd_link_season_bulk:
  "snd (link_season_bulk F clock m s n u d)
   = (if int (length (limit n (find_queue u d))) < n then d
      else snd (link_loop F clock m s u 0 (limit n (find_queue u d)) [] d))"
  by (simp add: link_season_bulk_def Let_def case_prod_unfold)

lemma link_season_bulk_keeps:
  assumes "unique_ids d" and "e \<in> set (upload_queue d)" and "user_id e \<noteq> p"
  shows "unique_ids (snd (link_season_bulk F clock m s n p d)) \<and>
         e \<in> set (upload_queue (snd (link_season_bulk F clock m s n p d)))"
proof (cases "int (length (limit n (find_queue p d))) < n")
  case True
  with assms show ?thesis by (simp add: snd_link_season_bulk)
next
  case False
  define ups where "ups = limit n (find_queue p d)"
  define d' where "d' = snd (link_loop F clock m s p 0 ups [] d)"
  from assms(1) have dist: "distinct (map qid (upload_queue d))"
    and bound: "\<forall>q\<in>set (upload_queue d). qid q < next_oid d"
    by (simp_all add: unique_ids_def)
  have q: "upload_queue d'
           = filter (\<lambda>q. \<forall>j<length ups. F (0 + j) = NoFault \<longrightarrow> qid (ups ! j) \<noteq> qid q)
               (upload_queue d)"
    unfolding d'_def using dist by (rule link_loop_queue)
  have n: "next_oid d' = next_oid d" unfolding d'_def by (simp add: link_loop_frame)
  have "distinct (map qid (upload_queue d'))" unfolding q using dist by (rule distinct_map_filter)
  moreover have "\<forall>x\<in>set (upload_queue d'). qid x < next_oid d'" using bound by (simp add: q n)
  ultimately have u: "unique_ids d'" by (simp add: unique_ids_def)
  have sub: "set ups \<subseteq> {x \<in> set (upload_queue d). user_id x = p}"
    using set_limit_subset [of n "find_queue p d"] unfolding ups_def
    by (auto simp: find_queue_def)
  have inj: "inj_on qid (set (upload_queue d))" using dist by (simp add: distinct_map)
  have "qid (ups ! j) \<noteq> qid e" if "j < length ups" for j
  proof
    assume eq: "qid (ups ! j) = qid e"
    from that have "ups ! j \<in> set ups" by simp
    with sub have m: "ups ! j \<in> set (upload_queue d)" and o: "user_id (ups ! j) = p" by auto
    from inj eq m assms(2) have "ups ! j = e" by (rule inj_onD)
    with o assms(3) show False by simp
  qed
  with assms(2) have "e \<in> set (upload_queue d')" by (simp add: q)
  with u False show ?thesis by (simp add: snd_link_season_bulk d'_def ups_def)
qed

lemma serve_keeps:
  assumes "unique_ids d" and "e \<in> set (upload_queue d)" and "user_id e \<noteq> p"
  shows "unique_ids (serve p r d) \<and> e \<in> set (upload_queue (serve p r d))"
proof (cases r)
  case (AddToQueue data now)
  from assms(1) have "qid (queue_entry data now (next_oid d)) \<notin> qid ` set (upload_queue d)"
    by (auto simp: unique_ids_def queue_entry_def)
  with assms(1,2) show ?thesis
    by (auto simp: AddToQueue add_to_queue_def unique_ids_def queue_entry_def less_Suc_eq)
next
  case GetQueue
  with assms show ?thesis by simp
next
  case GetQueueCount
  with assms show ?thesis by simp
next
  case ClearQueue
  from assms(1) have "distinct (map qid (filter (\<lambda>q. user_id q \<noteq> p) (upload_queue d)))"
    unfolding unique_ids_def by (intro distinct_map_filter) simp
  with assms show ?thesis
    by (simp add: ClearQueue clear_queue_def delete_many_def unique_ids_def)
next
  case (RemoveFromQueue f)
  let ?P = "\<lambda>q. user_id q = p \<and> file_id q = f"
  from assms(1) have "distinct (map qid (delete_one ?P (upload_queue d)))"
    unfolding unique_ids_def by (intro distinct_map_delete_one) simp
  moreover from assms(1) have "\<forall>q\<in>set (delete_one ?P (upload_queue d)). qid q < next_oid d"
    using set_delete_one_subset [of ?P "upload_queue d"] by (auto simp: unique_ids_def)
  moreover from assms(2,3) have "e \<in> set (delete_one ?P (upload_queue d))"
    by (intro delete_one_keeps) simp_all
  ultimately show ?thesis
    by (simp add: RemoveFromQueue remove_from_queue_def unique_ids_def)
next
  case (LinkSeasonBulk F clock m s n)
  with link_season_bulk_keeps [OF assms] show ?thesis by simp
qed

lemma serve_all_keeps:
  "unique_ids d \<Longrightarrow> e \<in> set (upload_queue d) \<Longrightarrow> user_id e \<noteq> p \<Longrightarrow>
   unique_ids (serve_all p rs d) \<and> e \<in> set (upload_queue (serve_all p rs d))"
proof (induction rs arbitrary: d)
  case Nil
  then show ?case by simp
next
  case (Cons r rs)
  from serve_keeps [OF Cons.prems, of r]
  have "unique_ids (serve p r d)" "e \<in> set (upload_queue (serve p r d))" by simp_all
  from Cons.IH [OF this Cons.prems(3)] show ?case by simp
qed


text \<open>
  C10. \<open>add_to_queue\<close> does not read the \<open>user_id\<close> of the path: the result is the
  one for the path of the body's user. When the two differ, the inserted document is
  read in the queue of the body's \<open>user_id\<close>, while the queue and the count of the
  path's \<open>user_id\<close> are what they were. After any sequence of queue requests addressed
  to the path's \<open>user_id\<close> (enqueue, list, count, clear, remove one, bulk link, with any
  store failures) the document is still in the collection, still read in the queue of
  the body's user, not in the list of the path's user, not counted for the path's user,
  and not among the uploads a bulk link of the path's user peeks.
\<close>

theorem enqueue_attributed_to_body:
  assumes "user_id data \<noteq> p" and "unique_ids d"
  shows "add_to_queue p data now d = add_to_queue (user_id data) data now d \<and>
         queue_entry data now (next_oid d)
           \<in> set (get_queue (user_id data) (snd (add_to_queue p data now d))) \<and>
         get_queue p (snd (add_to_queue p data now d)) = get_queue p d \<and>
         get_queue_count p (snd (add_to_queue p data now d)) = get_queue_count p d \<and>
         (\<forall>rs. queue_entry data now (next_oid d)
                 \<in> set (upload_queue (serve_all p rs (snd (add_to_queue p data now d)))) \<and>
               queue_entry data now (next_oid d)
                 \<in> set (get_queue (user_id data)
                          (serve_all p rs (snd (add_to_queue p data now d)))) \<and>
               queue_entry data now (next_oid d)
                 \<notin> set (get_queue p (serve_all p rs (snd (add_to_queue p data now d)))) \<and>
               get_queue_count p (serve_all p rs (snd (add_to_queue p data now d)))
                 = count_documents (\<lambda>q. user_id q = p)
                     (removeAll (queue_entry data now (next_oid d))
                        (upload_queue (serve_all p rs (snd (add_to_queue p data now d))))) \<and>
               (\<forall>n. queue_entry data now (next_oid d)
                      \<notin> set (limit n (find_queue p
                                (serve_all p rs (snd (add_to_queue p data now d)))))))"
proof -
  define e where "e = queue_entry data now (next_oid d)"
  define d1 where "d1 = snd (add_to_queue p data now d)"
  have ue: "user_id e = user_id data" by (simp add: e_def queue_entry_def)
  with assms(1) have ne: "user_id e \<noteq> p" by simp
  have q1: "upload_queue d1 = upload_queue d @ [e]" by (simp add: d1_def e_def add_to_queue_def)
  have 1: "add_to_queue p data now d = add_to_queue (user_id data) data now d"
    by (simp add: add_to_queue_def)
  have in1: "e \<in> set (upload_queue d1)" by (simp add: q1)
  have 2: "e \<in> set (get_queue (user_id data) d1)"
    by (simp add: get_queue_def find_queue_def q1 ue)
  have 3: "get_queue p d1 = get_queue p d"
    using ne by (simp add: get_queue_def find_queue_def q1)
  have 4: "get_queue_count p d1 = get_queue_count p d"
    using ne by (simp add: get_queue_count_def count_documents_def q1)
  have "qid e \<notin> qid ` set (upload_queue d)"
    using assms(2) by (auto simp: unique_ids_def e_def queue_entry_def)
  with assms(2) have u1: "unique_ids d1"
    by (auto simp: unique_ids_def q1 d1_def add_to_queue_def e_def queue_entry_def less_Suc_eq)
  have 5: "e \<in> set (upload_queue (serve_all p rs d1)) \<and>
           e \<in> set (get_queue (user_id data) (serve_all p rs d1)) \<and>
           e \<notin> set (get_queue p (serve_all p rs d1)) \<and>
           get_queue_count p (serve_all p rs d1)
             = count_documents (\<lambda>q. user_id q = p) (removeAll e (upload_queue (serve_all p rs d1))) \<and>
           (\<forall>n. e \<notin> set (limit n (find_queue p (serve_all p rs d1))))" for rs
  proof -
    define d2 where "d2 = serve_all p rs d1"
    from serve_all_keeps [OF u1 in1 ne, of rs] have a: "e \<in> set (upload_queue d2)"
      by (simp add: d2_def)
    then have b: "e \<in> set (get_queue (user_id data) d2)"
      by (simp add: get_queue_def find_queue_def ue)
    have c: "e \<notin> set (find_queue p d2)" using ne by (simp add: find_queue_def)
    have "filter (\<lambda>q. user_id q = p) (removeAll e (upload_queue d2))
          = filter (\<lambda>q. user_id q = p) (upload_queue d2)"
      using ne by (auto simp: removeAll_filter_not_eq intro: filter_cong)
    then have g: "get_queue_count p d2
                  = count_documents (\<lambda>q. user_id q = p) (removeAll e (upload_queue d2))"
      by (simp add: get_queue_count_def count_documents_def)
    have "e \<notin> set (limit n (find_queue p d2))" for n
      using c set_limit_subset [of n "find_queue p d2"] by blast
    with a b c g show ?thesis unfolding d2_def by (simp add: get_queue_def)
  qed
  from 1 2 3 4 5 show ?thesis unfolding e_def d1_def by blast
qed


text \<open>
  A request to the path of user 7 with a body of user 8, then a clear, a bulk link and
  a removal of that file, all addressed to user 7: the document is still queued, and it
  is the queue of user 8.
\<close>

theorem enqueue_attributed_to_body_witness:
  "\<lparr>user_id = 8, file_id = ''x'', bot_name = ''bot'', message_id = Some 31,
     timestamp = 5, qid = 20\<rparr>
     \<in> set (upload_queue
          (serve_all 7
             [ClearQueue,
              LinkSeasonBulk (\<lambda>i. NoFault) (\<lambda>i. 9) ''5f2b9c0a7D3E4f6a8b9c0d2e'' 1 0,
              RemoveFromQueue ''x'']
             (snd (add_to_queue 7
                \<lparr>user_id = 8, file_id = ''x'', bot_name = ''bot'', message_id = Some 31\<rparr> 5
                \<lparr>media = [], films = [], episodes = [], upload_queue = [], next_oid = 20\<rparr>)))) \<and>
   get_queue 8
     (snd (add_to_queue 7
        \<lparr>user_id = 8, file_id = ''x'', bot_name = ''bot'', message_id = Some 31\<rparr> 5
        \<lparr>media = [], films = [], episodes = [], upload_queue = [], next_oid = 20\<rparr>))
   = [\<lparr>user_id = 8, file_id = ''x'', bot_name = ''bot'', message_id = Some 31,
       timestamp = 5, qid = 20\<rparr>] \<and>
   get_queue_count 7
     (snd (add_to_queue 7
        \<lparr>user_id = 8, file_id = ''x'', bot_name = ''bot'', message_id = Some 31\<rparr> 5
        \<lparr>media = [], films = [], episodes = [], upload_queue = [], next_oid = 20\<rparr>))
   = 0"
proof -
  let ?data = "\<lparr>user_id = 8, file_id = ''x'', bot_name = ''bot'', message_id = Some 31\<rparr>"
  let ?d = "\<lparr>media = [], films = [], episodes = [], upload_queue = [], next_oid = 20\<rparr>"
  let ?rs = "[ClearQueue,
              LinkSeasonBulk (\<lambda>i. NoFault) (\<lambda>i. 9) ''5f2b9c0a7D3E4f6a8b9c0d2e'' 1 0,
              RemoveFromQueue ''x'']"
  have h1: "user_id ?data \<noteq> 7" by simp
  have h2: "unique_ids ?d" by (simp add: unique_ids_def)
  note t = enqueue_attributed_to_body [OF h1 h2, of 5]
  have e: "queue_entry ?data 5 (next_oid ?d)
           = \<lparr>user_id = 8, file_id = ''x'', bot_name = ''bot'', message_id = Some 31,
               timestamp = 5, qid = 20\<rparr>"
    by (simp add: queue_entry_def)
  have 1: "queue_entry ?data 5 (next_oid ?d)
             \<in> set (upload_queue (serve_all 7 ?rs (snd (add_to_queue 7 ?data 5 ?d))))"
    using t [THEN conjunct2, THEN conjunct2, THEN conjunct2, THEN conjunct2, rule_format, of ?rs]
    by blast
  have 2: "get_queue 8 (snd (add_to_queue 7 ?data 5 ?d)) = [queue_entry ?data 5 (next_oid ?d)]"
    by (simp add: get_queue_def find_queue_def add_to_queue_def queue_entry_def)
  have 3: "get_queue_count 7 (snd (add_to_queue 7 ?data 5 ?d)) = get_queue_count 7 ?d"
    using t [THEN conjunct2, THEN conjunct2, THEN conjunct2, THEN conjunct1] .
  have 4: "get_queue_count 7 ?d = 0" by (simp add: get_queue_count_def count_documents_def)
  from 1 2 3 4 show ?thesis unfolding e by simp
qed

end
